theory Spec2Isabelle
  imports Complex_Main
begin

section \<open>The array library, as far as tensor.py relies on it\<close>

text \<open>
  tensor.py stores its payloads in numpy arrays. An array is modelled by value: its
  shape and its elements in row-major order. Python floats are idealised as reals.
  The only in-place array mutation in tensor.py is the accumulation into the array of a
  gradient, which \<open>zero_grad\<close> allocates fresh; the model takes it that a caller does
  not hand that array to another tensor, so that no other array changes with it.
\<close>

record ndarray =
  dims :: "nat list"
  elems :: "real list"

datatype error =
    AssertionError
  | RuntimeError
  | AttributeError
  | ValueError
  | RecursionError
  | BadRef
  | GradFnError

text \<open>The names the specification gives to the two exceptions that \<open>backward\<close> raises itself.\<close>

abbreviation UngradableTensor :: error where
  "UngradableTensor \<equiv> AssertionError"

abbreviation MissingSeedGradient :: error where
  "MissingSeedGradient \<equiv> RuntimeError"

text \<open>\<open>Arrayable = Union[float, list, np.ndarray]\<close>\<close>

datatype arrayable = Float real | PyList "arrayable list" | NDArray ndarray

definition zeros_like :: "ndarray \<Rightarrow> ndarray" where
  "zeros_like a = \<lparr>dims = dims a, elems = replicate (prod_list (dims a)) 0\<rparr>"

text \<open>
  \<open>np.array\<close>: a number becomes a zero-dimensional array, a nested list an array with one
  more axis than its items, which must all have one shape.
\<close>

fun np_array :: "arrayable \<Rightarrow> error + ndarray" where
  "np_array (Float x) = Inr \<lparr>dims = [], elems = [x]\<rparr>"
| "np_array (NDArray a) = Inr a"
| "np_array (PyList xs) =
     (let rs = map np_array xs in
      if list_ex isl rs then Inl ValueError
      else case map projr rs of
             [] \<Rightarrow> Inr \<lparr>dims = [0], elems = []\<rparr>
           | a # as \<Rightarrow>
               if list_all (\<lambda>b. dims b = dims a) as
               then Inr \<lparr>dims = Suc (length as) # dims a, elems = concat (map elems (a # as))\<rparr>
               else Inl ValueError)"

text \<open>Broadcasting. Shapes are aligned at their last axis; an axis of size 1 stretches.\<close>

fun bshape :: "nat list \<Rightarrow> nat list \<Rightarrow> nat list option" where
  "bshape [] ys = Some ys"
| "bshape xs [] = Some xs"
| "bshape (x # xs) (y # ys) =
     (if x = y \<or> y = 1 then map_option ((#) x) (bshape xs ys)
      else if x = 1 then map_option ((#) y) (bshape xs ys)
      else None)"

definition broadcast_shapes :: "nat list \<Rightarrow> nat list \<Rightarrow> nat list option" where
  "broadcast_shapes s t = map_option rev (bshape (rev s) (rev t))"

fun bcast :: "nat list \<Rightarrow> nat list \<Rightarrow> real list \<Rightarrow> real list" where
  "bcast (d # ds) (e # es) xs =
     (if e = d
      then concat (map (\<lambda>i. bcast ds es (take (prod_list es) (drop (i * prod_list es) xs))) [0..<e])
      else concat (replicate d (bcast ds es xs)))"
| "bcast ds es xs = xs"

fun stretchable :: "nat list \<Rightarrow> nat list \<Rightarrow> bool" where
  "stretchable (d # ds) (e # es) = ((e = d \<or> e = 1) \<and> stretchable ds es)"
| "stretchable [] [] = True"
| "stretchable ds es = False"

definition broadcast_to :: "nat list \<Rightarrow> ndarray \<Rightarrow> real list option" where
  "broadcast_to s a =
     (if dims a = s then Some (elems a)
      else if length (dims a) \<le> length s
      then (let padded = replicate (length s - length (dims a)) 1 @ dims a in
            if stretchable s padded then Some (bcast s padded (elems a)) else None)
      else None)"

text \<open>\<open>x + y\<close>, \<open>x - y\<close>, \<open>x * y\<close> on arrays: a new array of the broadcast shape.\<close>

definition np_binop :: "(real \<Rightarrow> real \<Rightarrow> real) \<Rightarrow> ndarray \<Rightarrow> ndarray \<Rightarrow> error + ndarray" where
  "np_binop f x y =
     (case broadcast_shapes (dims x) (dims y) of
        None \<Rightarrow> Inl ValueError
      | Some s \<Rightarrow>
          (case (broadcast_to s x, broadcast_to s y) of
             (Some xs, Some ys) \<Rightarrow> Inr \<lparr>dims = s, elems = map2 f xs ys\<rparr>
           | _ \<Rightarrow> Inl ValueError))"

text \<open>\<open>x += y\<close> on arrays: \<open>y\<close> is broadcast to the shape of \<open>x\<close>, which keeps its shape.\<close>

definition np_iadd :: "ndarray \<Rightarrow> ndarray \<Rightarrow> error + ndarray" where
  "np_iadd x y =
     (case broadcast_to (dims x) y of
        None \<Rightarrow> Inl ValueError
      | Some ys \<Rightarrow> Inr (x\<lparr>elems := map2 (+) (elems x) ys\<rparr>))"

section \<open>Objects of tensor.py\<close>

text \<open>
  Tensors and dependency lists are objects with identity: a tensor is shared by every
  result that depends on it, and the default value of the parameter \<open>depends_on\<close> is one
  list object, made when the class body is executed. The heap holds both kinds of object;
  a reference is an index, and a new object is appended.
\<close>

type_synonym ref = nat

record Dependency =
  tensor :: ref
  grad_fn :: "ndarray \<Rightarrow> error + ndarray"

record Tensor =
  data :: ndarray
  requires_grad :: bool
  depends_on :: ref
  shape :: "nat list"
  grad :: "ref option"

record heap =
  tensors :: "Tensor list"
  lists :: "Dependency list list"

datatype 'a result = Return 'a heap | Raise error heap

text \<open>The list object that is the default of \<open>depends_on\<close> is the first list of the heap.\<close>

definition default_depends_on :: ref where
  "default_depends_on = 0"

definition module_heap :: heap where
  "module_heap = \<lparr>tensors = [], lists = [[]]\<rparr>"

definition get_tensor :: "heap \<Rightarrow> ref \<Rightarrow> Tensor option" where
  "get_tensor h r = (if r < length (tensors h) then Some (tensors h ! r) else None)"

definition get_list :: "heap \<Rightarrow> ref \<Rightarrow> Dependency list option" where
  "get_list h r = (if r < length (lists h) then Some (lists h ! r) else None)"

definition put_tensor :: "heap \<Rightarrow> ref \<Rightarrow> Tensor \<Rightarrow> heap" where
  "put_tensor h r T = h\<lparr>tensors := (tensors h)[r := T]\<rparr>"

definition ensure_array :: "arrayable \<Rightarrow> error + ndarray" where
  "ensure_array arrayable =
     (case arrayable of NDArray a \<Rightarrow> Inr a | _ \<Rightarrow> np_array arrayable)"

text \<open>
  \<open>Tensor.__init__\<close> up to the line \<open>self.grad = None\<close>. The argument \<open>depends_on\<close> is
  \<open>None\<close> when the caller leaves it out, and then the field refers to the default list.
\<close>

definition Tensor_fields :: "heap \<Rightarrow> arrayable \<Rightarrow> bool \<Rightarrow> ref option \<Rightarrow> ref result" where
  "Tensor_fields h d rg deps =
     (case ensure_array d of
        Inl e \<Rightarrow> Raise e h
      | Inr a \<Rightarrow>
          Return (length (tensors h))
            (h\<lparr>tensors := tensors h @
              [\<lparr>data = a, requires_grad = rg,
                depends_on = (case deps of None \<Rightarrow> default_depends_on | Some l \<Rightarrow> l),
                shape = dims a, grad = None\<rparr>]\<rparr>))"

text \<open>
  \<open>zero_grad\<close> constructs \<open>Tensor(data=np.zeros_like(self.data))\<close>, whose \<open>requires_grad\<close>
  is false, so that construction ends at \<open>self.grad = None\<close>.
\<close>

definition zero_grad :: "heap \<Rightarrow> ref \<Rightarrow> unit result" where
  "zero_grad h self =
     (case get_tensor h self of
        None \<Rightarrow> Raise BadRef h
      | Some T \<Rightarrow>
          (case Tensor_fields h (NDArray (zeros_like (data T))) False None of
             Raise e h1 \<Rightarrow> Raise e h1
           | Return g h1 \<Rightarrow> Return () (put_tensor h1 self (T\<lparr>grad := Some g\<rparr>))))"

definition Tensor_init :: "heap \<Rightarrow> arrayable \<Rightarrow> bool \<Rightarrow> ref option \<Rightarrow> ref result" where
  "Tensor_init h d rg deps =
     (case Tensor_fields h d rg deps of
        Raise e h1 \<Rightarrow> Raise e h1
      | Return self h1 \<Rightarrow>
          if rg
          then (case zero_grad h1 self of
                  Raise e h2 \<Rightarrow> Raise e h2
                | Return _ h2 \<Rightarrow> Return self h2)
          else Return self h1)"

text \<open>The setter of the property \<open>data\<close>.\<close>

definition data_setter :: "heap \<Rightarrow> ref \<Rightarrow> ndarray \<Rightarrow> unit result" where
  "data_setter h self new_data =
     (case get_tensor h self of
        None \<Rightarrow> Raise BadRef h
      | Some T \<Rightarrow> Return () (put_tensor h self (T\<lparr>data := new_data, grad := None\<rparr>)))"

text \<open>\<open>Tensorable\<close>: a tensor, or something \<open>Tensor(...)\<close> accepts.\<close>

datatype tensorable = ATensor ref | AnArrayable arrayable

definition ensure_tensor :: "heap \<Rightarrow> tensorable \<Rightarrow> ref result" where
  "ensure_tensor h tensorable =
     (case tensorable of
        ATensor r \<Rightarrow> Return r h
      | AnArrayable a \<Rightarrow> Tensor_init h a False None)"

text \<open>
  \<open>__iadd__\<close>, \<open>__isub__\<close> and \<open>__imul__\<close> differ in the array operation only:
  \<open>self.data = self.data op ensure_tensor(other).data; return self\<close>.
\<close>

definition inplace_op ::
  "(real \<Rightarrow> real \<Rightarrow> real) \<Rightarrow> heap \<Rightarrow> ref \<Rightarrow> tensorable \<Rightarrow> ref result" where
  "inplace_op f h self other =
     (case get_tensor h self of
        None \<Rightarrow> Raise BadRef h
      | Some T \<Rightarrow>
          (case ensure_tensor h other of
             Raise e h1 \<Rightarrow> Raise e h1
           | Return ot h1 \<Rightarrow>
               (case get_tensor h1 ot of
                  None \<Rightarrow> Raise BadRef h1
                | Some OT \<Rightarrow>
                    (case np_binop f (data T) (data OT) of
                       Inl e \<Rightarrow> Raise e h1
                     | Inr a \<Rightarrow>
                         (case data_setter h1 self a of
                            Raise e h2 \<Rightarrow> Raise e h2
                          | Return _ h2 \<Rightarrow> Return self h2)))))"

definition iadd :: "heap \<Rightarrow> ref \<Rightarrow> tensorable \<Rightarrow> ref result" where
  "iadd = inplace_op (+)"

definition isub :: "heap \<Rightarrow> ref \<Rightarrow> tensorable \<Rightarrow> ref result" where
  "isub = inplace_op (-)"

definition imul :: "heap \<Rightarrow> ref \<Rightarrow> tensorable \<Rightarrow> ref result" where
  "imul = inplace_op (*)"

section \<open>The backward pass\<close>

text \<open>A \<open>for\<close> loop whose body may raise: the first exception ends it.\<close>

fun for_each :: "('a \<Rightarrow> heap \<Rightarrow> unit result) \<Rightarrow> 'a list \<Rightarrow> heap \<Rightarrow> unit result" where
  "for_each body [] h = Return () h"
| "for_each body (x # xs) h =
     (case body x h of
        Raise e h1 \<Rightarrow> Raise e h1
      | Return _ h1 \<Rightarrow> for_each body xs h1)"

text \<open>\<open>self.grad.data += grad.data\<close>: the array of the accumulator is added to in place and
  then assigned through the setter of the accumulator.\<close>

definition accumulate :: "heap \<Rightarrow> ref \<Rightarrow> ref \<Rightarrow> unit result" where
  "accumulate h self g =
     (case get_tensor h self of
        None \<Rightarrow> Raise BadRef h
      | Some T \<Rightarrow>
          (case grad T of
             None \<Rightarrow> Raise AttributeError h
           | Some acc \<Rightarrow>
               (case (get_tensor h acc, get_tensor h g) of
                  (Some A, Some G) \<Rightarrow>
                    (case np_iadd (data A) (data G) of
                       Inl e \<Rightarrow> Raise e h
                     | Inr a \<Rightarrow> data_setter h acc a)
                | _ \<Rightarrow> Raise BadRef h)))"

text \<open>The body of the loop over \<open>self.depends_on\<close>; \<open>call\<close> is the recursive call.\<close>

definition propagate ::
  "(heap \<Rightarrow> ref \<Rightarrow> ref option \<Rightarrow> unit result) \<Rightarrow> ref \<Rightarrow> Dependency \<Rightarrow> heap \<Rightarrow> unit result" where
  "propagate call g dependency h =
     (case get_tensor h g of
        None \<Rightarrow> Raise BadRef h
      | Some G \<Rightarrow>
          (case grad_fn dependency (data G) of
             Inl e \<Rightarrow> Raise e h
           | Inr backward_grad \<Rightarrow>
               (case Tensor_init h (NDArray backward_grad) False None of
                  Raise e h1 \<Rightarrow> Raise e h1
                | Return t h1 \<Rightarrow> call h1 (tensor dependency) (Some t))))"

text \<open>Lines 122 to 125: the accumulation and the loop, once the seed \<open>g\<close> is known.\<close>

definition accumulate_and_propagate ::
  "(heap \<Rightarrow> ref \<Rightarrow> ref option \<Rightarrow> unit result) \<Rightarrow> heap \<Rightarrow> ref \<Rightarrow> ref \<Rightarrow> unit result" where
  "accumulate_and_propagate call h self g =
     (case accumulate h self g of
        Raise e h2 \<Rightarrow> Raise e h2
      | Return _ h2 \<Rightarrow>
          (case get_tensor h2 self of
             None \<Rightarrow> Raise BadRef h2
           | Some T2 \<Rightarrow>
               (case get_list h2 (depends_on T2) of
                  None \<Rightarrow> Raise BadRef h2
                | Some deps \<Rightarrow> for_each (propagate call g) deps h2)))"

text \<open>The body of \<open>backward\<close>: the assertion, the default of the seed, and the rest.\<close>

definition backward_body ::
  "(heap \<Rightarrow> ref \<Rightarrow> ref option \<Rightarrow> unit result) \<Rightarrow> heap \<Rightarrow> ref \<Rightarrow> ref option \<Rightarrow> unit result" where
  "backward_body call h self grad_arg =
     (case get_tensor h self of
        None \<Rightarrow> Raise BadRef h
      | Some T \<Rightarrow>
          if \<not> requires_grad T then Raise AssertionError h
          else
            (case (case grad_arg of
                     Some g \<Rightarrow> Return g h
                   | None \<Rightarrow>
                       if shape T = [] then Tensor_init h (Float 1) False None
                       else Raise RuntimeError h) of
               Raise e h1 \<Rightarrow> Raise e h1
             | Return g h1 \<Rightarrow> accumulate_and_propagate call h1 self g))"

text \<open>
  \<open>backward\<close> calls itself once per dependency. The first argument bounds the depth of
  these nested calls, as the interpreter's recursion limit does: a call beyond it raises
  \<open>RecursionError\<close>.
\<close>

primrec backward :: "nat \<Rightarrow> heap \<Rightarrow> ref \<Rightarrow> ref option \<Rightarrow> unit result" where
  "backward 0 = backward_body (\<lambda>h t g. Raise RecursionError h)"
| "backward (Suc n) = backward_body (backward n)"

section \<open>Auxiliary notions for stating the properties\<close>

fun heap_of :: "'a result \<Rightarrow> heap" where
  "heap_of (Return v h) = h"
| "heap_of (Raise e h) = h"

text \<open>\<open>l.append(d)\<close> on a list object, which is how a caller mutates a dependency list.\<close>

definition list_append :: "heap \<Rightarrow> ref \<Rightarrow> Dependency \<Rightarrow> unit result" where
  "list_append h l d =
     (case get_list h l of
        None \<Rightarrow> Raise BadRef h
      | Some ds \<Rightarrow> Return () (h\<lparr>lists := (lists h)[l := ds @ [d]]\<rparr>))"

definition scalar :: "real \<Rightarrow> ndarray" where
  "scalar x = \<lparr>dims = [], elems = [x]\<rparr>"

subsection \<open>A heap of three user tensors\<close>

text \<open>
  The heap after \<open>x = Tensor([1., 2., 3.], requires_grad=True)\<close>,
  \<open>s = Tensor(2., requires_grad=True)\<close> and \<open>k = Tensor(5.)\<close>.
\<close>

definition ex_x :: Tensor where
  "ex_x = \<lparr>data = \<lparr>dims = [3], elems = [1, 2, 3]\<rparr>, requires_grad = True,
           depends_on = 0, shape = [3], grad = Some 1\<rparr>"

definition ex_x_grad :: Tensor where
  "ex_x_grad = \<lparr>data = \<lparr>dims = [3], elems = [0, 0, 0]\<rparr>, requires_grad = False,
           depends_on = 0, shape = [3], grad = None\<rparr>"

definition ex_s :: Tensor where
  "ex_s = \<lparr>data = scalar 2, requires_grad = True, depends_on = 0, shape = [], grad = Some 3\<rparr>"

definition ex_s_grad :: Tensor where
  "ex_s_grad = \<lparr>data = scalar 0, requires_grad = False, depends_on = 0, shape = [], grad = None\<rparr>"

definition ex_k :: Tensor where
  "ex_k = \<lparr>data = scalar 5, requires_grad = False, depends_on = 0, shape = [], grad = None\<rparr>"

definition ex_heap :: heap where
  "ex_heap = \<lparr>tensors = [ex_x, ex_x_grad, ex_s, ex_s_grad, ex_k], lists = [[]]\<rparr>"

text \<open>The same heap after \<open>s.data = np.array(4.)\<close>.\<close>

definition ex_stale :: heap where
  "ex_stale = heap_of (data_setter ex_heap 2 (scalar 4))"

subsection \<open>Two leaves made without \<open>depends_on\<close>\<close>

text \<open>
  The heap after \<open>a = Tensor(1.)\<close> and \<open>b = Tensor(2.)\<close>, and then after
  \<open>a.depends_on.append(dep)\<close>.
\<close>

definition ex_dep :: Dependency where
  "ex_dep = \<lparr>tensor = 0, grad_fn = Inr\<rparr>"

definition ex_two_leaves :: heap where
  "ex_two_leaves =
     heap_of (Tensor_init (heap_of (Tensor_init module_heap (Float 1) False None))
       (Float 2) False None)"

definition ex_appended :: heap where
  "ex_appended = heap_of (list_append ex_two_leaves (depends_on (tensors ex_two_leaves ! 0)) ex_dep)"

section \<open>The shape invariant of gradients\<close>


text \<open>A tensor that is the gradient of some tensor of the heap.\<close>

definition is_accumulator :: "heap \<Rightarrow> ref \<Rightarrow> bool" where
  "is_accumulator h r = list_ex (\<lambda>T. grad T = Some r) (tensors h)"

text \<open>What \<open>backward\<close> may do to a heap: keep the shape of every array, clear a gradient
  field, and add tensors without a gradient.\<close>

definition grows :: "heap \<Rightarrow> heap \<Rightarrow> bool" where
  "grows h h' \<longleftrightarrow>
     length (tensors h) \<le> length (tensors h') \<and>
     (\<forall>r < length (tensors h).
        dims (data (tensors h' ! r)) = dims (data (tensors h ! r)) \<and>
        (grad (tensors h' ! r) = grad (tensors h ! r) \<or> grad (tensors h' ! r) = None)) \<and>
     (\<forall>r. length (tensors h) \<le> r \<and> r < length (tensors h') \<longrightarrow> grad (tensors h' ! r) = None)"

section \<open>Heaps on which two passes are compared\<close>

text \<open>
  Two facts that hold of every heap the module builds: a gradient is a tensor of the heap
  that does not itself require a gradient (\<open>zero_grad\<close> makes it so, and nothing changes
  \<open>requires_grad\<close>), and a dependency refers to a tensor of the heap.
\<close>

definition well_formed :: "heap \<Rightarrow> bool" where
  "well_formed h \<longleftrightarrow>
     list_all (\<lambda>T. case grad T of
                     None \<Rightarrow> True
                   | Some g \<Rightarrow>
                       (case get_tensor h g of
                          None \<Rightarrow> False
                        | Some G \<Rightarrow> \<not> requires_grad G))
       (tensors h) \<and>
     list_all (list_all (\<lambda>d. tensor d < length (tensors h))) (lists h)"

text \<open>A seed passed by the caller is a tensor of the heap that is not the gradient of a
  tensor.\<close>

definition seed_ok :: "heap \<Rightarrow> ref option \<Rightarrow> bool" where
  "seed_ok h seed =
     (case seed of None \<Rightarrow> True | Some s \<Rightarrow> s < length (tensors h) \<and> \<not> is_accumulator h s)"

text \<open>
  What a pass does to a heap, relative to the heap \<open>h0\<close> the comparison starts from: the
  lists stay, tensors are added, a gradient of \<open>h0\<close> keeps its shape and has something
  added to its elements, and every other tensor stays as it is.
\<close>

definition frame :: "heap \<Rightarrow> heap \<Rightarrow> heap \<Rightarrow> bool" where
  "frame h0 h h' \<longleftrightarrow>
     lists h' = lists h \<and> length (tensors h) \<le> length (tensors h') \<and>
     (\<forall>r < length (tensors h).
        if is_accumulator h0 r
        then requires_grad (tensors h' ! r) = requires_grad (tensors h ! r) \<and>
             dims (data (tensors h' ! r)) = dims (data (tensors h ! r)) \<and>
             (\<exists>d. elems (data (tensors h' ! r)) = map2 (+) (elems (data (tensors h ! r))) d)
        else tensors h' ! r = tensors h ! r)"

text \<open>Two heaps whose gradients differ by the fixed amounts \<open>D\<close>.\<close>

definition sim :: "heap \<Rightarrow> (ref \<Rightarrow> real list) \<Rightarrow> heap \<Rightarrow> heap \<Rightarrow> bool" where
  "sim h0 D h h' \<longleftrightarrow>
     (\<forall>r. is_accumulator h0 r \<longrightarrow>
        dims (data (tensors h' ! r)) = dims (data (tensors h ! r)) \<and>
        elems (data (tensors h' ! r)) = map2 (+) (elems (data (tensors h ! r))) (D r))"

definition paired :: "heap \<Rightarrow> (ref \<Rightarrow> real list) \<Rightarrow> heap \<Rightarrow> heap \<Rightarrow> bool" where
  "paired h0 D h h' \<longleftrightarrow> frame h0 h0 h \<and> frame h0 h0 h' \<and> sim h0 D h h'"

text \<open>Seeds of two runs that hold the same array and are not gradients of \<open>h0\<close>.\<close>

definition seeds_agree :: "heap \<Rightarrow> heap \<Rightarrow> ref \<Rightarrow> heap \<Rightarrow> ref \<Rightarrow> bool" where
  "seeds_agree h0 h s h' s' \<longleftrightarrow>
     s < length (tensors h) \<and> s' < length (tensors h') \<and>
     \<not> is_accumulator h0 s \<and> \<not> is_accumulator h0 s' \<and>
     data (tensors h ! s) = data (tensors h' ! s')"

fun seeds_related :: "heap \<Rightarrow> heap \<Rightarrow> ref option \<Rightarrow> heap \<Rightarrow> ref option \<Rightarrow> bool" where
  "seeds_related h0 h None h' None = True"
| "seeds_related h0 h (Some s) h' (Some s') = seeds_agree h0 h s h' s'"
| "seeds_related h0 h a h' b = False"

text \<open>Both runs return, or both raise the same exception.\<close>

fun same_outcome :: "'a result \<Rightarrow> 'a result \<Rightarrow> bool" where
  "same_outcome (Return u h) (Return u' h') = True"
| "same_outcome (Raise e h) (Raise e' h') = (e = e')"
| "same_outcome r r' = False"

subsection \<open>A graph with two paths\<close>

text \<open>
  The heap after \<open>a = Tensor(2., requires_grad=True)\<close> and \<open>c = a + a\<close>, where the
  gradient function of addition without broadcasting is the identity; and the heap one
  call \<open>c.backward()\<close> later, with the three seed tensors the call has made.
\<close>

definition ex_a :: Tensor where
  "ex_a = \<lparr>data = scalar 2, requires_grad = True, depends_on = 0, shape = [], grad = Some 1\<rparr>"

definition ex_c :: Tensor where
  "ex_c = \<lparr>data = scalar 4, requires_grad = True, depends_on = 1, shape = [], grad = Some 3\<rparr>"

definition ex_zero :: Tensor where
  "ex_zero = \<lparr>data = scalar 0, requires_grad = False, depends_on = 0, shape = [], grad = None\<rparr>"

definition ex_one :: Tensor where
  "ex_one = \<lparr>data = scalar 1, requires_grad = False, depends_on = 0, shape = [], grad = None\<rparr>"

definition ex_graph :: heap where
  "ex_graph = \<lparr>tensors = [ex_a, ex_zero, ex_c, ex_zero],
               lists = [[], [\<lparr>tensor = 0, grad_fn = Inr\<rparr>, \<lparr>tensor = 0, grad_fn = Inr\<rparr>]]\<rparr>"

definition ex_graph_once :: heap where
  "ex_graph_once = \<lparr>tensors = [ex_a, ex_zero\<lparr>data := scalar 2\<rparr>, ex_c, ex_zero\<lparr>data := scalar 1\<rparr>,
                      ex_one, ex_one, ex_one],
               lists = [[], [\<lparr>tensor = 0, grad_fn = Inr\<rparr>, \<lparr>tensor = 0, grad_fn = Inr\<rparr>]]\<rparr>"

section \<open>Addition\<close>

text \<open>
  \<open>Tensor.__add__\<close> hands its operands to \<open>_add\<close> of the operations module, which is not
  among the sources. What follows models \<open>_add\<close> and its gradient function from sections
  4.2 and 8 of the specification.
\<close>

text \<open>Modelled from the spec: the rows of an array along its first axis, for the reduction
  over that axis (the operations module is missing).\<close>

definition rows :: "nat \<Rightarrow> nat \<Rightarrow> real list \<Rightarrow> real list list" where
  "rows n m xs = map (\<lambda>i. take m (drop (i * m) xs)) [0..<n]"

text \<open>Modelled from the spec: the sum over a leading axis "present in the result but not the
  target" of the broadcast-reduction rule (the operations module is missing).\<close>

definition sum_axis0 :: "ndarray \<Rightarrow> ndarray" where
  "sum_axis0 a =
     (case dims a of
        [] \<Rightarrow> a
      | d # ds \<Rightarrow>
          \<lparr>dims = ds,
           elems = foldr (map2 (+)) (rows d (prod_list ds) (elems a)) (replicate (prod_list ds) 0)\<rparr>)"

text \<open>Modelled from the spec: the shape after summing, with the axis kept, over "any axis
  where the target has size 1" (the operations module is missing).\<close>

fun kept_dims :: "nat list \<Rightarrow> nat list \<Rightarrow> nat list" where
  "kept_dims (t # ts) (d # ds) = (if t = 1 then 1 else d) # kept_dims ts ds"
| "kept_dims ts ds = ds"

text \<open>Modelled from the spec: the sum over "any axis where the target has size 1 but the
  result does not" (the operations module is missing).\<close>

fun sum_ones :: "nat list \<Rightarrow> nat list \<Rightarrow> real list \<Rightarrow> real list" where
  "sum_ones (t # ts) (d # ds) xs =
     (let rs = map (sum_ones ts ds) (rows d (prod_list ds) xs) in
      if t = 1 \<and> d \<noteq> 1
      then foldr (map2 (+)) rs (replicate (prod_list (kept_dims ts ds)) 0)
      else concat rs)"
| "sum_ones ts ds xs = xs"

text \<open>Modelled from the spec: the broadcast-reduction rule, "producing a gradient exactly
  reshaped to the target"; a gradient that has the target shape has no axis to sum over
  (the operations module is missing).\<close>

definition sum_to_shape :: "nat list \<Rightarrow> ndarray \<Rightarrow> ndarray" where
  "sum_to_shape target g =
     (if dims g = target then g
      else (let g1 = (sum_axis0 ^^ (length (dims g) - length target)) g in
            \<lparr>dims = kept_dims target (dims g1), elems = sum_ones target (dims g1) (elems g1)\<rparr>))"

text \<open>Modelled from the spec: the gradient function of addition, "\<open>grad_fn(g) = g\<close>, reduced
  (summed) over any axes that were broadcast-expanded" (the operations module is missing).\<close>

definition add_grad_fn :: "nat list \<Rightarrow> ndarray \<Rightarrow> error + ndarray" where
  "add_grad_fn target g = Inr (sum_to_shape target g)"

text \<open>Modelled from the spec: \<open>_add\<close>, the forward array by elementwise addition with
  broadcasting, \<open>requires_grad\<close> true iff an input's is, and one dependency, in a new
  list, for each input that requires a gradient (the operations module is missing).\<close>

definition operations_add :: "heap \<Rightarrow> ref \<Rightarrow> ref \<Rightarrow> ref result" where
  "operations_add h t1 t2 =
     (case (get_tensor h t1, get_tensor h t2) of
        (Some T1, Some T2) \<Rightarrow>
          (case np_binop (+) (data T1) (data T2) of
             Inl e \<Rightarrow> Raise e h
           | Inr a \<Rightarrow>
               (let deps =
                      (if requires_grad T1
                       then [\<lparr>tensor = t1, grad_fn = add_grad_fn (dims (data T1))\<rparr>] else []) @
                      (if requires_grad T2
                       then [\<lparr>tensor = t2, grad_fn = add_grad_fn (dims (data T2))\<rparr>] else [])
                in Tensor_init (h\<lparr>lists := lists h @ [deps]\<rparr>) (NDArray a)
                     (requires_grad T1 \<or> requires_grad T2) (Some (length (lists h)))))
      | _ \<Rightarrow> Raise BadRef h)"

text \<open>\<open>Tensor.__add__\<close>: \<open>return _add(self, ensure_tensor(other))\<close>.\<close>

definition tensor_add :: "heap \<Rightarrow> ref \<Rightarrow> tensorable \<Rightarrow> ref result" where
  "tensor_add h self other =
     (case ensure_tensor h other of
        Raise e h1 \<Rightarrow> Raise e h1
      | Return ot h1 \<Rightarrow> operations_add h1 self ot)"

text \<open>\<open>t.grad.data\<close>, when \<open>t\<close> has a gradient.\<close>

definition grad_data :: "heap \<Rightarrow> ref \<Rightarrow> ndarray option" where
  "grad_data h t =
     (case get_tensor h t of
        None \<Rightarrow> None
      | Some T \<Rightarrow>
          (case grad T of
             None \<Rightarrow> None
           | Some g \<Rightarrow> map_option data (get_tensor h g)))"

text \<open>A leaf that requires a gradient and whose gradient is still the zeros of its
  construction.\<close>

definition fresh_leaf :: "heap \<Rightarrow> ref \<Rightarrow> bool" where
  "fresh_leaf h t =
     (case get_tensor h t of
        None \<Rightarrow> False
      | Some T \<Rightarrow>
          requires_grad T \<and> get_list h (depends_on T) = Some [] \<and>
          (case grad T of
             None \<Rightarrow> False
           | Some g \<Rightarrow>
               (case get_tensor h g of
                  None \<Rightarrow> False
                | Some G \<Rightarrow> data G = zeros_like (data T))))"

text \<open>Two different fresh leaves of one shape with gradients of their own, on a well-formed
  heap, and a seed of that shape that is not a gradient.\<close>

definition add_scenario :: "heap \<Rightarrow> ref \<Rightarrow> ref \<Rightarrow> ref \<Rightarrow> bool" where
  "add_scenario h a b s \<longleftrightarrow>
     well_formed h \<and> a \<noteq> b \<and> fresh_leaf h a \<and> fresh_leaf h b \<and> \<not> is_accumulator h s \<and>
     (case (get_tensor h a, get_tensor h b, get_tensor h s) of
        (Some A, Some B, Some S) \<Rightarrow>
          grad A \<noteq> grad B \<and> dims (data A) = dims (data B) \<and> dims (data S) = dims (data A) \<and>
          length (elems (data S)) = prod_list (dims (data S))
      | _ \<Rightarrow> False)"

subsection \<open>Two scalar leaves and a seed\<close>

text \<open>The heap after \<open>a = Tensor(2., requires_grad=True)\<close>,
  \<open>s = Tensor(2., requires_grad=True)\<close> and \<open>k = Tensor(5.)\<close>.\<close>

definition ex_pair :: heap where
  "ex_pair = \<lparr>tensors = [ex_a, ex_zero, ex_s, ex_zero, ex_k], lists = [[]]\<rparr>"

text \<open>The graph of \<open>c = a + a\<close> after the seed \<open>a\<close> has been added to the gradient of \<open>c\<close>.\<close>

definition ex_graph_seeded :: heap where
  "ex_graph_seeded = put_tensor ex_graph 3 (ex_zero\<lparr>data := scalar 2\<rparr>)"

subsection \<open>Tensors whose data has been replaced by data of another shape\<close>

text \<open>Whether a call returned.\<close>

fun returns :: "'a result \<Rightarrow> bool" where
  "returns (Return v h) = True"
| "returns (Raise e h) = False"

text \<open>The heap of the three user tensors after \<open>s.data = np.array([1., 2.]); s.zero_grad()\<close>,
  and after \<open>x.data = np.array(4.); x.zero_grad()\<close>.\<close>

definition ex_widened :: heap where
  "ex_widened = heap_of (zero_grad (heap_of (data_setter ex_heap 2 \<lparr>dims = [2], elems = [1, 2]\<rparr>)) 2)"

definition ex_narrowed :: heap where
  "ex_narrowed = heap_of (zero_grad (heap_of (data_setter ex_heap 0 (scalar 4))) 0)"

section \<open>The array model on examples\<close>

lemma broadcast_to_row_example:
  "broadcast_to [2, 3] \<lparr>dims = [3], elems = [1, 2, 3]\<rparr> = Some [1, 2, 3, 1, 2, 3]"
  by (simp add: broadcast_to_def eval_nat_numeral upt_rec)

lemma broadcast_to_column_example:
  "broadcast_to [2, 3] \<lparr>dims = [2, 1], elems = [1, 2]\<rparr> = Some [1, 1, 1, 2, 2, 2]"
  by (simp add: broadcast_to_def eval_nat_numeral upt_rec)

lemma broadcast_to_mismatch_example:
  "broadcast_to [3] \<lparr>dims = [2], elems = [1, 2]\<rparr> = None \<and>
   broadcast_to [] \<lparr>dims = [3], elems = [1, 2, 3]\<rparr> = None"
  by (simp add: broadcast_to_def eval_nat_numeral)

lemma np_binop_broadcast_example:
  "np_binop (*) \<lparr>dims = [2, 1], elems = [1, 2]\<rparr> \<lparr>dims = [1, 3], elems = [10, 20, 30]\<rparr>
     = Inr \<lparr>dims = [2, 3], elems = [10, 20, 30, 20, 40, 60]\<rparr>"
  by (simp add: np_binop_def broadcast_shapes_def broadcast_to_def eval_nat_numeral upt_rec)

lemma np_array_nested_example:
  "np_array (PyList [PyList [Float 1, Float 2], PyList [Float 3, Float 4]])
     = Inr \<lparr>dims = [2, 2], elems = [1, 2, 3, 4]\<rparr> \<and>
   np_array (PyList [PyList [Float 1, Float 2], PyList [Float 3]]) = Inl ValueError"
  by (simp add: eval_nat_numeral)

lemma np_iadd_scalar_seed_example:
  "np_iadd \<lparr>dims = [3], elems = [0, 0, 0]\<rparr> \<lparr>dims = [], elems = [1]\<rparr>
     = Inr \<lparr>dims = [3], elems = [1, 1, 1]\<rparr> \<and>
   np_iadd \<lparr>dims = [], elems = [0]\<rparr> \<lparr>dims = [3], elems = [1, 1, 1]\<rparr> = Inl ValueError"
  by (simp add: np_iadd_def broadcast_to_def eval_nat_numeral)

section \<open>Basic facts about the heap and the constructor\<close>

lemma ensure_array_NDArray [simp]: "ensure_array (NDArray a) = Inr a"
  by (simp add: ensure_array_def)

lemma ensure_array_Float [simp]: "ensure_array (Float x) = Inr \<lparr>dims = [], elems = [x]\<rparr>"
  by (simp add: ensure_array_def)

lemma Tensor_fields_ok:
  assumes "ensure_array d = Inr a"
  shows "Tensor_fields h d rg deps =
     Return (length (tensors h))
            (h\<lparr>tensors := tensors h @
              [\<lparr>data = a, requires_grad = rg,
                depends_on = (case deps of None \<Rightarrow> default_depends_on | Some l \<Rightarrow> l),
                shape = dims a, grad = None\<rparr>]\<rparr>)"
  using assms by (simp add: Tensor_fields_def)

text \<open>With \<open>requires_grad\<close> false the constructor stops after setting the fields, which is
  what \<open>zero_grad\<close> relies on.\<close>

lemma Tensor_init_no_grad: "Tensor_init h d False deps = Tensor_fields h d False deps"
  by (simp add: Tensor_init_def split: result.splits)

lemma ex_heap_get:
  "get_tensor ex_heap 0 = Some ex_x" "get_tensor ex_heap 1 = Some ex_x_grad"
  "get_tensor ex_heap 2 = Some ex_s" "get_tensor ex_heap 3 = Some ex_s_grad"
  "get_tensor ex_heap 4 = Some ex_k"
  by (simp_all add: get_tensor_def ex_heap_def)

text \<open>The example heap is what the three constructor calls produce from the empty module.\<close>

lemma ex_heap_built:
  "heap_of (Tensor_init (heap_of (Tensor_init (heap_of (Tensor_init module_heap
      (PyList [Float 1, Float 2, Float 3]) True None)) (Float 2) True None)) (Float 5) False None)
    = ex_heap"
  by (simp add: Tensor_init_def Tensor_fields_def ensure_array_def zero_grad_def get_tensor_def
      put_tensor_def module_heap_def ex_heap_def ex_x_def ex_x_grad_def ex_s_def ex_s_grad_def
      ex_k_def scalar_def zeros_like_def default_depends_on_def)

section \<open>Errors of \<open>backward\<close>\<close>

text \<open>
  Claim C2. On a tensor whose \<open>requires_grad\<close> is false, \<open>backward\<close> raises the
  assertion error (the specification's UngradableTensor), with a seed or without, at every
  recursion limit, and the heap it leaves is the heap it was called on: no gradient has
  been accumulated anywhere.
\<close>

theorem backward_ungradable:
  assumes "get_tensor h self = Some T" and "\<not> requires_grad T"
  shows "backward fuel h self seed = Raise UngradableTensor h"
  using assms by (cases fuel) (simp_all add: backward_body_def)

theorem backward_ungradable_witness:
  "get_tensor ex_heap 4 = Some ex_k \<and> \<not> requires_grad ex_k \<and>
   backward 3 ex_heap 4 (Some 2) = Raise UngradableTensor ex_heap \<and>
   backward 3 ex_heap 4 None = Raise UngradableTensor ex_heap"
proof -
  have a: "get_tensor ex_heap 4 = Some ex_k" by (rule ex_heap_get)
  have b: "\<not> requires_grad ex_k" by (simp add: ex_k_def)
  show ?thesis
    using a b backward_ungradable [OF a b, of 3 "Some 2"] backward_ungradable [OF a b, of 3 None]
    by simp
qed

text \<open>
  The seed omitted, on a tensor that requires a gradient: if the field \<open>shape\<close>, set at
  construction, is empty, the seed is the fresh tensor \<open>Tensor(1)\<close> and the pass is the pass
  with that seed; if the field is not empty, the call raises the runtime error (the
  specification's MissingSeedGradient) and leaves the heap as it was.
\<close>

lemma backward_seed_omitted:
  assumes "get_tensor h self = Some T" and "requires_grad T"
  shows "(shape T = [] \<longrightarrow>
           (\<exists>s h1 S. Tensor_init h (Float 1) False None = Return s h1 \<and>
              get_tensor h1 s = Some S \<and> data S = \<lparr>dims = [], elems = [1]\<rparr> \<and>
              backward fuel h self None = backward fuel h1 self (Some s))) \<and>
         (shape T \<noteq> [] \<longrightarrow> backward fuel h self None = Raise MissingSeedGradient h)"
  using assms
  by (cases fuel)
     (auto simp add: backward_body_def Tensor_init_no_grad Tensor_fields_ok get_tensor_def nth_append
           split: if_splits)

lemmas eval_defs = backward_body_def accumulate_and_propagate_def accumulate_def propagate_def
  Tensor_init_no_grad Tensor_fields_def data_setter_def zero_grad_def put_tensor_def
  get_tensor_def get_list_def np_iadd_def broadcast_to_def zeros_like_def default_depends_on_def
  ex_heap_def ex_x_def ex_x_grad_def ex_s_def ex_s_grad_def ex_k_def scalar_def

text \<open>
  Claim C3. The setter of \<open>data\<close> does not refresh the field \<open>shape\<close>, and \<open>backward\<close>
  tests that field. So after \<open>s = Tensor(2., requires_grad=True)\<close>,
  \<open>s.data = np.array([1., 2.])\<close> and \<open>s.zero_grad()\<close> the root has data of shape \<open>(2,)\<close>,
  and \<open>s.backward()\<close> without a seed returns, with the gradient \<open>[1., 1.]\<close>, where the claim
  has it fail. And after \<open>x = Tensor([1., 2., 3.], requires_grad=True)\<close>,
  \<open>x.data = np.array(4.)\<close> and \<open>x.zero_grad()\<close> the root has scalar data, and
  \<open>x.backward()\<close> raises the runtime error, where the claim has the seed default to 1.
\<close>

theorem stale_shape_decides_seed:
  "map_option (dims \<circ> data) (get_tensor ex_widened 2) = Some [2] \<and>
   map_option shape (get_tensor ex_widened 2) = Some [] \<and>
   returns (backward 3 ex_widened 2 None) \<and>
   grad_data (heap_of (backward 3 ex_widened 2 None)) 2 = Some \<lparr>dims = [2], elems = [1, 1]\<rparr> \<and>
   map_option (dims \<circ> data) (get_tensor ex_narrowed 0) = Some [] \<and>
   map_option shape (get_tensor ex_narrowed 0) = Some [3] \<and>
   backward 3 ex_narrowed 0 None = Raise MissingSeedGradient ex_narrowed"
  by (simp add: numeral_3_eq_3 ex_widened_def ex_narrowed_def grad_data_def eval_defs
      eval_nat_numeral)

text \<open>
  Claim C10. On a tensor that requires a gradient but has no accumulator (as after an
  assignment to \<open>data\<close>), \<open>backward\<close> with a seed raises the attribute error of
  \<open>self.grad.data\<close> at the accumulation, whatever the seed, and leaves the heap as it was;
  without a seed it reaches the accumulation, and raises the same error there, when the
  field \<open>shape\<close> is empty; and no call of \<open>backward\<close> on that tensor returns, with or
  without a seed.
\<close>

theorem backward_absent_accumulator:
  assumes "get_tensor h self = Some T" and "requires_grad T" and "grad T = None"
  shows "backward fuel h self (Some g) = Raise AttributeError h \<and>
         (shape T = [] \<longrightarrow> (\<exists>h'. backward fuel h self None = Raise AttributeError h')) \<and>
         (\<forall>seed u h'. backward fuel h self seed \<noteq> Return u h')"
proof -
  have "backward fuel h self seed \<noteq> Return u h'" for seed u h'
    using assms
    by (cases fuel; cases seed)
       (auto simp add: backward_body_def accumulate_and_propagate_def accumulate_def
          Tensor_init_no_grad Tensor_fields_ok get_tensor_def nth_append split: if_splits)
  moreover have "backward fuel h self (Some g) = Raise AttributeError h"
    using assms
    by (cases fuel) (auto simp add: backward_body_def accumulate_and_propagate_def accumulate_def)
  moreover have "\<exists>h'. backward fuel h self None = Raise AttributeError h'" if "shape T = []"
    using assms that
    by (cases fuel)
       (auto simp add: backward_body_def accumulate_and_propagate_def accumulate_def
          Tensor_init_no_grad Tensor_fields_ok get_tensor_def nth_append split: if_splits)
  ultimately show ?thesis by blast
qed

lemma ex_stale_get: "get_tensor ex_stale 2 = Some (ex_s\<lparr>data := scalar 4, grad := None\<rparr>)"
  by (simp add: ex_stale_def data_setter_def ex_heap_get put_tensor_def)
     (simp add: get_tensor_def ex_heap_def)

text \<open>After \<open>s.zero_grad()\<close> the call returns again.\<close>

lemma ex_stale_rematerialized:
  "backward 3 (heap_of (zero_grad ex_stale 2)) 2 (Some 4) =
     Return () (put_tensor (heap_of (zero_grad ex_stale 2)) 5
        \<lparr>data = scalar 5, requires_grad = False, depends_on = 0, shape = [], grad = None\<rparr>)"
  by (simp add: numeral_3_eq_3 ex_stale_def zero_grad_def backward_body_def
      accumulate_and_propagate_def accumulate_def propagate_def Tensor_fields_def data_setter_def
      put_tensor_def get_tensor_def get_list_def np_iadd_def broadcast_to_def zeros_like_def
      default_depends_on_def ex_heap_def ex_x_def ex_x_grad_def ex_s_def ex_s_grad_def ex_k_def
      scalar_def)

theorem backward_absent_accumulator_witness:
  "get_tensor ex_stale 2 = Some (ex_s\<lparr>data := scalar 4, grad := None\<rparr>) \<and>
   requires_grad (ex_s\<lparr>data := scalar 4, grad := None\<rparr>) \<and>
   grad (ex_s\<lparr>data := scalar 4, grad := None\<rparr>) = None \<and>
   shape (ex_s\<lparr>data := scalar 4, grad := None\<rparr>) = [] \<and>
   backward 3 ex_stale 2 (Some 4) = Raise AttributeError ex_stale \<and>
   (\<exists>h'. backward 3 ex_stale 2 None = Raise AttributeError h') \<and>
   (\<forall>seed u h'. backward 3 ex_stale 2 seed \<noteq> Return u h') \<and>
   (\<exists>h2. backward 3 (heap_of (zero_grad ex_stale 2)) 2 (Some 4) = Return () h2)"
proof -
  have b: "requires_grad (ex_s\<lparr>data := scalar 4, grad := None\<rparr>)" by (simp add: ex_s_def)
  have c: "grad (ex_s\<lparr>data := scalar 4, grad := None\<rparr>) = None" by simp
  have d: "shape (ex_s\<lparr>data := scalar 4, grad := None\<rparr>) = []" by (simp add: ex_s_def)
  show ?thesis
    using ex_stale_get b c d backward_absent_accumulator [OF ex_stale_get b c, of 3 4]
      ex_stale_rematerialized
    by simp
qed

section \<open>Construction and mutation of a tensor\<close>



text \<open>
  Claim C5. Assigning to \<open>data\<close> of a tensor returns; afterwards the tensor holds the new
  array and no gradient, its \<open>requires_grad\<close> and \<open>depends_on\<close> are what they were, and
  no dependency list has changed.
\<close>

theorem data_setter_effect:
  assumes "get_tensor h self = Some T"
  shows "\<exists>h' T'. data_setter h self new_data = Return () h' \<and> get_tensor h' self = Some T' \<and>
           data T' = new_data \<and> grad T' = None \<and>
           requires_grad T' = requires_grad T \<and> depends_on T' = depends_on T \<and>
           lists h' = lists h"
  using assms by (auto simp add: data_setter_def get_tensor_def put_tensor_def split: if_splits)

theorem data_setter_effect_witness:
  "get_tensor ex_heap 0 = Some ex_x \<and>
   (\<exists>h' T'. data_setter ex_heap 0 (scalar 7) = Return () h' \<and> get_tensor h' 0 = Some T' \<and>
           data T' = scalar 7 \<and> grad T' = None \<and>
           requires_grad T' = requires_grad ex_x \<and> depends_on T' = depends_on ex_x \<and>
           lists h' = lists ex_heap)"
  using data_setter_effect [OF ex_heap_get(1), of "scalar 7"] ex_heap_get(1) by simp

lemma ensure_tensor_frame:
  "lists (heap_of (ensure_tensor h x)) = lists h \<and>
   length (tensors h) \<le> length (tensors (heap_of (ensure_tensor h x))) \<and>
   (\<forall>r < length (tensors h). tensors (heap_of (ensure_tensor h x)) ! r = tensors h ! r)"
  by (auto simp add: ensure_tensor_def Tensor_init_no_grad Tensor_fields_def nth_append
      split: tensorable.splits sum.splits)

text \<open>
  Claim C6. Each of \<open>+=\<close>, \<open>-=\<close> and \<open>*=\<close> on a tensor, with a tensor or anything
  \<open>Tensor(...)\<close> accepts on the right. The right operand becomes a tensor: a tensor is
  taken as it is, and anything \<open>np.array\<close> accepts is wrapped in a new one. Then, when the
  array operation succeeds, the update returns the tensor itself in the heap where its
  data is the result of the operation on its old data and the data of the right operand
  and its gradient is absent, and nothing else has changed; when the array operation
  raises, the update raises the same exception and no tensor has changed. In every case
  no dependency list has changed and every tensor of the heap has the \<open>depends_on\<close> it
  had.
\<close>

theorem inplace_op_effect:
  assumes "get_tensor h self = Some T"
    and "(op, f) \<in> {(iadd, (+)), (isub, (-)), (imul, (*))}"
  shows "(\<forall>r. other = ATensor r \<longrightarrow> ensure_tensor h other = Return r h) \<and>
         (\<forall>d a. other = AnArrayable d \<and> ensure_array d = Inr a \<longrightarrow>
            (\<exists>ot h1 OT. ensure_tensor h other = Return ot h1 \<and>
               get_tensor h1 ot = Some OT \<and> data OT = a)) \<and>
         (\<forall>ot h1 OT a. ensure_tensor h other = Return ot h1 \<and> get_tensor h1 ot = Some OT \<and>
            np_binop f (data T) (data OT) = Inr a \<longrightarrow>
            op h self other = Return self (put_tensor h1 self (T\<lparr>data := a, grad := None\<rparr>)) \<and>
            get_tensor (put_tensor h1 self (T\<lparr>data := a, grad := None\<rparr>)) self
              = Some (T\<lparr>data := a, grad := None\<rparr>)) \<and>
         (\<forall>ot h1 OT e. ensure_tensor h other = Return ot h1 \<and> get_tensor h1 ot = Some OT \<and>
            np_binop f (data T) (data OT) = Inl e \<longrightarrow>
            op h self other = Raise e h1) \<and>
         (\<forall>t h'. op h self other = Return t h' \<longrightarrow>
            t = self \<and>
            (\<exists>T' ot h1 OT. ensure_tensor h other = Return ot h1 \<and> get_tensor h1 ot = Some OT \<and>
               get_tensor h' self = Some T' \<and>
               np_binop f (data T) (data OT) = Inr (data T') \<and> grad T' = None)) \<and>
         lists (heap_of (op h self other)) = lists h \<and>
         (\<forall>r R. get_tensor h r = Some R \<longrightarrow>
            (\<exists>R'. get_tensor (heap_of (op h self other)) r = Some R' \<and>
               depends_on R' = depends_on R))"
proof -
  have op: "op = inplace_op f"
    using assms(2) by (auto simp add: iadd_def isub_def imul_def)
  obtain h1 where h1: "h1 = heap_of (ensure_tensor h other)" by simp
  have fr: "lists h1 = lists h" "length (tensors h) \<le> length (tensors h1)"
    "\<And>r. r < length (tensors h) \<Longrightarrow> tensors h1 ! r = tensors h ! r"
    using ensure_tensor_frame [of h other] h1 by auto
  have self: "self < length (tensors h)" "tensors h ! self = T"
    using assms(1) by (auto simp add: get_tensor_def split: if_splits)
  have 1: "\<forall>r. other = ATensor r \<longrightarrow> ensure_tensor h other = Return r h"
    by (simp add: ensure_tensor_def)
  have 2: "\<forall>d a. other = AnArrayable d \<and> ensure_array d = Inr a \<longrightarrow>
            (\<exists>ot h1 OT. ensure_tensor h other = Return ot h1 \<and>
               get_tensor h1 ot = Some OT \<and> data OT = a)"
    by (auto simp add: ensure_tensor_def Tensor_init_no_grad Tensor_fields_def get_tensor_def)
  have 3: "\<forall>ot h1 OT a. ensure_tensor h other = Return ot h1 \<and> get_tensor h1 ot = Some OT \<and>
            np_binop f (data T) (data OT) = Inr a \<longrightarrow>
            op h self other = Return self (put_tensor h1 self (T\<lparr>data := a, grad := None\<rparr>)) \<and>
            get_tensor (put_tensor h1 self (T\<lparr>data := a, grad := None\<rparr>)) self
              = Some (T\<lparr>data := a, grad := None\<rparr>)"
    unfolding op using fr self h1 assms(1)
    by (auto simp add: inplace_op_def data_setter_def get_tensor_def put_tensor_def)
  have 4: "\<forall>ot h1 OT e. ensure_tensor h other = Return ot h1 \<and> get_tensor h1 ot = Some OT \<and>
            np_binop f (data T) (data OT) = Inl e \<longrightarrow>
            op h self other = Raise e h1"
    unfolding op using assms(1) by (auto simp add: inplace_op_def)
  have 5: "(\<forall>t h'. op h self other = Return t h' \<longrightarrow>
            t = self \<and>
            (\<exists>T' ot h1 OT. ensure_tensor h other = Return ot h1 \<and> get_tensor h1 ot = Some OT \<and>
               get_tensor h' self = Some T' \<and>
               np_binop f (data T) (data OT) = Inr (data T') \<and> grad T' = None)) \<and>
         lists (heap_of (op h self other)) = lists h \<and>
         (\<forall>r R. get_tensor h r = Some R \<longrightarrow>
            (\<exists>R'. get_tensor (heap_of (op h self other)) r = Some R' \<and>
               depends_on R' = depends_on R))"
    unfolding op using fr self h1
    by (cases "ensure_tensor h other")
       (auto simp add: inplace_op_def assms(1) data_setter_def get_tensor_def put_tensor_def
          nth_list_update split: option.splits sum.splits if_splits)
  show ?thesis using 1 2 3 4 5 by blast
qed

text \<open>\<open>x += 2.\<close>, \<open>x -= s\<close> with a tensor, and \<open>x *= [[1., 2.]]\<close>, whose shapes do not
  broadcast.\<close>

theorem inplace_op_effect_witness:
  "get_tensor ex_heap 0 = Some ex_x \<and>
   (iadd, (+)) \<in> {(iadd, (+)), (isub, (-)), (imul, (*))} \<and>
   (isub, (-)) \<in> {(iadd, (+)), (isub, (-)), (imul, (*))} \<and>
   ensure_array (Float 2) = Inr (scalar 2) \<and>
   (\<exists>ot h1 OT. ensure_tensor ex_heap (AnArrayable (Float 2)) = Return ot h1 \<and>
      get_tensor h1 ot = Some OT \<and> data OT = scalar 2 \<and>
      np_binop (+) (data ex_x) (data OT) = Inr \<lparr>dims = [3], elems = [3, 4, 5]\<rparr> \<and>
      iadd ex_heap 0 (AnArrayable (Float 2))
        = Return 0 (put_tensor h1 0 (ex_x\<lparr>data := \<lparr>dims = [3], elems = [3, 4, 5]\<rparr>, grad := None\<rparr>))) \<and>
   ensure_tensor ex_heap (ATensor 2) = Return 2 ex_heap \<and>
   get_tensor ex_heap 2 = Some ex_s \<and>
   np_binop (-) (data ex_x) (data ex_s) = Inr \<lparr>dims = [3], elems = [-1, 0, 1]\<rparr> \<and>
   isub ex_heap 0 (ATensor 2)
     = Return 0 (put_tensor ex_heap 0 (ex_x\<lparr>data := \<lparr>dims = [3], elems = [-1, 0, 1]\<rparr>, grad := None\<rparr>)) \<and>
   lists (heap_of (iadd ex_heap 0 (AnArrayable (Float 2)))) = lists ex_heap \<and>
   (\<exists>R'. get_tensor (heap_of (iadd ex_heap 0 (AnArrayable (Float 2)))) 0 = Some R' \<and>
      depends_on R' = depends_on ex_x)"
proof -
  have m: "(iadd, (+)) \<in> {(iadd, (+)), (isub, (-)), (imul, (*))}"
    "(isub, (-)) \<in> {(iadd, (+)), (isub, (-)), (imul, (*))}" by simp_all
  have e: "ensure_array (Float 2) = Inr (scalar 2)" by (simp add: scalar_def)
  note ta = inplace_op_effect [OF ex_heap_get(1) m(1), of "AnArrayable (Float 2)"]
  note ts = inplace_op_effect [OF ex_heap_get(1) m(2), of "ATensor 2"]
  from ta e obtain ot h1 OT where o: "ensure_tensor ex_heap (AnArrayable (Float 2)) = Return ot h1"
      "get_tensor h1 ot = Some OT" "data OT = scalar 2"
    by blast
  have ba: "np_binop (+) (data ex_x) (scalar 2) = Inr \<lparr>dims = [3], elems = [3, 4, 5]\<rparr>"
    by (simp add: np_binop_def broadcast_shapes_def broadcast_to_def ex_x_def scalar_def
        eval_nat_numeral)
  have bs: "np_binop (-) (data ex_x) (data ex_s) = Inr \<lparr>dims = [3], elems = [-1, 0, 1]\<rparr>"
    by (simp add: np_binop_def broadcast_shapes_def broadcast_to_def ex_x_def ex_s_def scalar_def
        eval_nat_numeral)
  have ra: "iadd ex_heap 0 (AnArrayable (Float 2))
        = Return 0 (put_tensor h1 0 (ex_x\<lparr>data := \<lparr>dims = [3], elems = [3, 4, 5]\<rparr>, grad := None\<rparr>))"
    using ta o ba by simp
  have es: "ensure_tensor ex_heap (ATensor 2) = Return 2 ex_heap" using ts by blast
  have rs: "isub ex_heap 0 (ATensor 2)
     = Return 0 (put_tensor ex_heap 0 (ex_x\<lparr>data := \<lparr>dims = [3], elems = [-1, 0, 1]\<rparr>, grad := None\<rparr>))"
    using ts es ex_heap_get(3) bs by blast
  from ta ex_heap_get(1)
  have l: "lists (heap_of (iadd ex_heap 0 (AnArrayable (Float 2)))) = lists ex_heap"
    and d: "\<exists>R'. get_tensor (heap_of (iadd ex_heap 0 (AnArrayable (Float 2)))) 0 = Some R' \<and>
      depends_on R' = depends_on ex_x"
    by blast+
  have 1: "\<exists>ot h1 OT. ensure_tensor ex_heap (AnArrayable (Float 2)) = Return ot h1 \<and>
      get_tensor h1 ot = Some OT \<and> data OT = scalar 2 \<and>
      np_binop (+) (data ex_x) (data OT) = Inr \<lparr>dims = [3], elems = [3, 4, 5]\<rparr> \<and>
      iadd ex_heap 0 (AnArrayable (Float 2))
        = Return 0 (put_tensor h1 0 (ex_x\<lparr>data := \<lparr>dims = [3], elems = [3, 4, 5]\<rparr>, grad := None\<rparr>))"
    using o ba ra by auto
  show ?thesis using ex_heap_get(1,3) m e 1 es bs rs l d by blast
qed

section \<open>The default dependency list\<close>

lemma ex_two_leaves_eq:
  "ex_two_leaves = \<lparr>tensors =
      [\<lparr>data = scalar 1, requires_grad = False, depends_on = 0, shape = [], grad = None\<rparr>,
       \<lparr>data = scalar 2, requires_grad = False, depends_on = 0, shape = [], grad = None\<rparr>],
     lists = [[]]\<rparr>"
  by (simp add: ex_two_leaves_def Tensor_init_no_grad Tensor_fields_def module_heap_def
      scalar_def default_depends_on_def)

lemma ex_appended_eq:
  "ex_appended = \<lparr>tensors =
      [\<lparr>data = scalar 1, requires_grad = False, depends_on = 0, shape = [], grad = None\<rparr>,
       \<lparr>data = scalar 2, requires_grad = False, depends_on = 0, shape = [], grad = None\<rparr>],
     lists = [[ex_dep]]\<rparr>"
  by (simp add: ex_appended_def ex_two_leaves_eq list_append_def get_list_def)

text \<open>
  Claim C9. Two tensors made without \<open>depends_on\<close> hold the same list object: at first
  it is empty, but after \<open>a.depends_on.append(dep)\<close> the list of \<open>b\<close> holds \<open>dep\<close>
  too, and so does the list of a leaf \<open>Tensor(3.)\<close> made afterwards. The lists are not
  independent, and a new leaf need not have an empty one.
\<close>

theorem default_depends_on_is_shared:
  "get_list ex_two_leaves (depends_on (tensors ex_two_leaves ! 1)) = Some [] \<and>
   get_list ex_appended (depends_on (tensors ex_appended ! 1)) = Some [ex_dep] \<and>
   get_list (heap_of (Tensor_init ex_appended (Float 3) False None))
     (depends_on (tensors (heap_of (Tensor_init ex_appended (Float 3) False None)) ! 2))
     = Some [ex_dep]"
  by (simp add: ex_appended_eq ex_two_leaves_eq get_list_def Tensor_init_no_grad Tensor_fields_def
      default_depends_on_def)

section \<open>Preservation of the shape invariant\<close>


lemma grows_refl: "grows h h"
  by (auto simp add: grows_def)

lemma grows_trans:
  assumes "grows h1 h2" and "grows h2 h3"
  shows "grows h1 h3"
proof -
  have len: "length (tensors h1) \<le> length (tensors h2)" "length (tensors h2) \<le> length (tensors h3)"
    using assms by (auto simp add: grows_def)
  have old: "dims (data (tensors h3 ! r)) = dims (data (tensors h1 ! r)) \<and>
        (grad (tensors h3 ! r) = grad (tensors h1 ! r) \<or> grad (tensors h3 ! r) = None)"
    if "r < length (tensors h1)" for r
  proof -
    have "r < length (tensors h2)" using that len by simp
    then show ?thesis using assms that unfolding grows_def by metis
  qed
  have new: "grad (tensors h3 ! r) = None"
    if "length (tensors h1) \<le> r" "r < length (tensors h3)" for r
  proof (cases "r < length (tensors h2)")
    case True
    then have "grad (tensors h2 ! r) = None" using assms(1) that unfolding grows_def by blast
    then show ?thesis using assms(2) True unfolding grows_def by metis
  next
    case False
    then show ?thesis using assms(2) that unfolding grows_def by simp
  qed
  show ?thesis unfolding grows_def using len old new by auto
qed


lemma Tensor_fields_grows: "grows h (heap_of (Tensor_fields h d rg deps))"
  by (auto simp add: Tensor_fields_def grows_def nth_append split: sum.splits)

lemma np_iadd_dims: "np_iadd x y = Inr a \<Longrightarrow> dims a = dims x"
  by (auto simp add: np_iadd_def split: option.splits)

lemma np_iadd_elems: "np_iadd x y = Inr a \<Longrightarrow> \<exists>d. elems a = map2 (+) (elems x) d"
  by (auto simp add: np_iadd_def split: option.splits)

lemma accumulate_grows: "grows h (heap_of (accumulate h self g))"
  by (auto simp add: accumulate_def data_setter_def put_tensor_def grows_def get_tensor_def
      nth_list_update np_iadd_dims split: option.splits sum.splits if_splits)

lemma for_each_grows:
  assumes "\<And>x h. x \<in> set xs \<Longrightarrow> grows h (heap_of (body x h))"
  shows "grows h (heap_of (for_each body xs h))"
  using assms
proof (induction xs arbitrary: h)
  case Nil
  then show ?case by (simp add: grows_refl)
next
  case (Cons x xs)
  have 1: "grows h (heap_of (body x h))" using Cons.prems by simp
  show ?case
  proof (cases "body x h")
    case (Return u h1)
    then have "grows h1 (heap_of (for_each body xs h1))" using Cons by simp
    then show ?thesis using 1 Return by (auto intro: grows_trans)
  next
    case (Raise e h1)
    then show ?thesis using 1 by simp
  qed
qed

lemma propagate_grows:
  assumes "\<And>h t s. grows h (heap_of (call h t s))"
  shows "grows h (heap_of (propagate call g dep h))"
proof -
  have "grows h (heap_of (call h1 t s))"
    if "Tensor_fields h d False None = Return u h1" for d u h1 t s
    using Tensor_fields_grows [of h d False None] assms [of h1 t s] that
    by (auto intro: grows_trans)
  moreover have "grows h h1" if "Tensor_fields h d False None = Raise e h1" for d e h1
    using Tensor_fields_grows [of h d False None] that by simp
  ultimately show ?thesis
    by (auto simp add: propagate_def Tensor_init_no_grad grows_refl
        split: option.splits sum.splits result.splits)
qed

lemma backward_body_grows:
  assumes "\<And>h t s. grows h (heap_of (call h t s))"
  shows "grows h (heap_of (backward_body call h self seed))"
proof -
  have loop: "grows h2 (heap_of (for_each (propagate call g) deps h2))" for h2 g deps
    by (rule for_each_grows) (rule propagate_grows, rule assms)
  have acc: "grows h1 (heap_of (accumulate_and_propagate call h1 self g))" for h1 g
    using accumulate_grows [of h1 self g] loop
    by (cases "accumulate h1 self g")
       (auto simp add: accumulate_and_propagate_def split: option.splits intro: grows_trans)
  show ?thesis
  proof (cases "get_tensor h self")
    case None
    then show ?thesis by (simp add: backward_body_def grows_refl)
  next
    case (Some T)
    show ?thesis
    proof (cases seed)
      case (Some g)
      then show ?thesis using \<open>get_tensor h self = Some T\<close> acc [of h g]
        by (simp add: backward_body_def grows_refl)
    next
      case None
      show ?thesis
      proof (cases "Tensor_fields h (Float 1) False None")
        case (Return g h1)
        then have "grows h h1" using Tensor_fields_grows [of h "Float 1" False None] by simp
        then show ?thesis using \<open>get_tensor h self = Some T\<close> None Return acc [of h1 g]
          by (auto simp add: backward_body_def grows_refl Tensor_init_no_grad intro: grows_trans)
      next
        case (Raise e h1)
        then show ?thesis using \<open>get_tensor h self = Some T\<close> None
          by (simp add: backward_body_def Tensor_fields_def)
      qed
    qed
  qed
qed

lemma backward_grows: "grows h (heap_of (backward n h t s))"
proof (induction n arbitrary: h t s)
  case 0
  show ?case by (simp, rule backward_body_grows) (simp add: grows_refl)
next
  case (Suc n)
  show ?case by (simp, rule backward_body_grows) (rule Suc)
qed

lemma is_accumulator_iff:
  "is_accumulator h r \<longleftrightarrow> (\<exists>t < length (tensors h). grad (tensors h ! t) = Some r)"
  by (auto simp add: is_accumulator_def list_ex_length)










section \<open>Two passes over one graph\<close>

lemma map2_add_zeros: "map2 (+) xs (replicate (length xs) (0::real)) = xs"
  by (induction xs) simp_all

lemma map2_add_assoc:
  "map2 (+) (map2 (+) xs d1) d2 = map2 (+) xs (map2 (+) d1 (d2::real list))"
proof (induction xs arbitrary: d1 d2)
  case Nil
  then show ?case by simp
next
  case (Cons x xs)
  then show ?case by (cases d1; cases d2) simp_all
qed

lemma ex_map2_add: "\<exists>d. xs = map2 (+) xs (d::real list)"
  using map2_add_zeros by metis

lemma frame_refl: "frame h0 h h"
  by (simp add: frame_def ex_map2_add)

lemma frame_trans:
  assumes "frame h0 h1 h2" and "frame h0 h2 h3"
  shows "frame h0 h1 h3"
proof -
  have len: "length (tensors h1) \<le> length (tensors h2)" "length (tensors h2) \<le> length (tensors h3)"
    and l: "lists h3 = lists h1"
    using assms by (auto simp add: frame_def)
  have "if is_accumulator h0 r
        then requires_grad (tensors h3 ! r) = requires_grad (tensors h1 ! r) \<and>
             dims (data (tensors h3 ! r)) = dims (data (tensors h1 ! r)) \<and>
             (\<exists>d. elems (data (tensors h3 ! r)) = map2 (+) (elems (data (tensors h1 ! r))) d)
        else tensors h3 ! r = tensors h1 ! r"
    if r: "r < length (tensors h1)" for r
  proof (cases "is_accumulator h0 r")
    case True
    have r2: "r < length (tensors h2)" using r len by simp
    from assms(1) r True obtain d1 where
      a: "requires_grad (tensors h2 ! r) = requires_grad (tensors h1 ! r)"
         "dims (data (tensors h2 ! r)) = dims (data (tensors h1 ! r))"
         "elems (data (tensors h2 ! r)) = map2 (+) (elems (data (tensors h1 ! r))) d1"
      unfolding frame_def by metis
    from assms(2) r2 True obtain d2 where
      b: "requires_grad (tensors h3 ! r) = requires_grad (tensors h2 ! r)"
         "dims (data (tensors h3 ! r)) = dims (data (tensors h2 ! r))"
         "elems (data (tensors h3 ! r)) = map2 (+) (elems (data (tensors h2 ! r))) d2"
      unfolding frame_def by metis
    have "elems (data (tensors h3 ! r)) = map2 (+) (elems (data (tensors h1 ! r))) (map2 (+) d1 d2)"
      using a(3) b(3) by (simp only: map2_add_assoc)
    then show ?thesis using True a b by auto
  next
    case False
    have r2: "r < length (tensors h2)" using r len by simp
    have "tensors h2 ! r = tensors h1 ! r" using assms(1) r False unfolding frame_def by metis
    moreover have "tensors h3 ! r = tensors h2 ! r" using assms(2) r2 False unfolding frame_def by metis
    ultimately show ?thesis using False by simp
  qed
  then show ?thesis unfolding frame_def using len l by auto
qed

lemma for_each_rel:
  assumes step: "\<And>x h. x \<in> set xs \<Longrightarrow> I h \<Longrightarrow> R h (heap_of (body x h))"
    and refl: "\<And>h. R h h"
    and trans: "\<And>a b c. R a b \<Longrightarrow> R b c \<Longrightarrow> R a c"
    and pres: "\<And>h h'. I h \<Longrightarrow> R h h' \<Longrightarrow> I h'"
  shows "I h \<Longrightarrow> R h (heap_of (for_each body xs h))"
  using step
proof (induction xs arbitrary: h)
  case Nil
  then show ?case by (simp add: refl)
next
  case (Cons x xs)
  have 1: "R h (heap_of (body x h))" using Cons.prems by simp
  show ?case
  proof (cases "body x h")
    case (Return u h1)
    then have "I h1" using 1 Cons.prems(1) pres by fastforce
    then have "R h1 (heap_of (for_each body xs h1))" using Cons by simp
    then show ?thesis using 1 Return trans by fastforce
  next
    case (Raise e h1)
    then show ?thesis using 1 by simp
  qed
qed

lemma well_formed_iff:
  "well_formed h \<longleftrightarrow>
     (\<forall>t < length (tensors h). \<forall>g. grad (tensors h ! t) = Some g \<longrightarrow>
        g < length (tensors h) \<and> \<not> requires_grad (tensors h ! g)) \<and>
     (\<forall>l \<in> set (lists h). \<forall>d \<in> set l. tensor d < length (tensors h))"
proof -
  have 1: "list_all (\<lambda>T. case grad T of
                     None \<Rightarrow> True
                   | Some g \<Rightarrow>
                       (case get_tensor h g of
                          None \<Rightarrow> False
                        | Some G \<Rightarrow> \<not> requires_grad G))
       (tensors h) \<longleftrightarrow>
     (\<forall>t < length (tensors h). \<forall>g. grad (tensors h ! t) = Some g \<longrightarrow>
        g < length (tensors h) \<and> \<not> requires_grad (tensors h ! g))"
    by (auto simp add: list_all_length get_tensor_def split: option.splits)
  have 2: "list_all (list_all (\<lambda>d. tensor d < length (tensors h))) (lists h) \<longleftrightarrow>
     (\<forall>l \<in> set (lists h). \<forall>d \<in> set l. tensor d < length (tensors h))"
    by (simp add: list_all_iff)
  show ?thesis unfolding well_formed_def 1 2 ..
qed

text \<open>What the invariant gives about the current heap.\<close>

lemma inv_accumulator:
  assumes "well_formed h0" "frame h0 h0 h" "is_accumulator h0 r"
  shows "r < length (tensors h0)" "\<not> requires_grad (tensors h ! r)"
proof -
  show r: "r < length (tensors h0)"
    using assms(1,3) unfolding well_formed_iff is_accumulator_iff by blast
  have "\<not> requires_grad (tensors h0 ! r)"
    using assms(1,3) unfolding well_formed_iff is_accumulator_iff by blast
  then show "\<not> requires_grad (tensors h ! r)"
    using assms(2,3) r unfolding frame_def by metis
qed

lemma inv_node:
  assumes "well_formed h0" "frame h0 h0 h" "t < length (tensors h0)" "requires_grad (tensors h ! t)"
  shows "tensors h ! t = tensors h0 ! t" "\<not> is_accumulator h0 t"
proof -
  show "\<not> is_accumulator h0 t" using inv_accumulator(2) [OF assms(1,2)] assms(4) by blast
  then show "tensors h ! t = tensors h0 ! t" using assms(2,3) unfolding frame_def by metis
qed

lemma Tensor_fields_frame: "frame h0 h (heap_of (Tensor_fields h d rg deps))"
  by (auto simp add: frame_def Tensor_fields_def nth_append ex_map2_add split: sum.splits)

lemma put_accumulator_frame:
  assumes "is_accumulator h0 acc" "acc < length (tensors h)"
    "np_iadd (data (tensors h ! acc)) y = Inr a"
  shows "frame h0 h (put_tensor h acc ((tensors h ! acc)\<lparr>data := a, grad := None\<rparr>))"
proof -
  have "if is_accumulator h0 r
        then requires_grad ((tensors h)[acc := (tensors h ! acc)\<lparr>data := a, grad := None\<rparr>] ! r)
               = requires_grad (tensors h ! r) \<and>
             dims (data ((tensors h)[acc := (tensors h ! acc)\<lparr>data := a, grad := None\<rparr>] ! r))
               = dims (data (tensors h ! r)) \<and>
             (\<exists>d. elems (data ((tensors h)[acc := (tensors h ! acc)\<lparr>data := a, grad := None\<rparr>] ! r))
               = map2 (+) (elems (data (tensors h ! r))) d)
        else (tensors h)[acc := (tensors h ! acc)\<lparr>data := a, grad := None\<rparr>] ! r = tensors h ! r"
    if "r < length (tensors h)" for r
  proof (cases "r = acc")
    case True
    then show ?thesis using assms np_iadd_dims [OF assms(3)] np_iadd_elems [OF assms(3)] by simp
  next
    case False
    then show ?thesis by (simp add: ex_map2_add)
  qed
  then show ?thesis unfolding frame_def put_tensor_def by simp
qed

lemma accumulate_frame:
  assumes wf: "well_formed h0" and inv: "frame h0 h0 h"
    and t: "self < length (tensors h0)" and rg: "requires_grad (tensors h ! self)"
  shows "frame h0 h (heap_of (accumulate h self g))"
proof -
  have len: "length (tensors h0) \<le> length (tensors h)" using inv by (simp add: frame_def)
  have T: "tensors h ! self = tensors h0 ! self" using inv_node [OF wf inv t rg] by simp
  show ?thesis
  proof (cases "grad (tensors h ! self)")
    case None
    then show ?thesis using t len by (simp add: accumulate_def get_tensor_def frame_refl)
  next
    case (Some acc)
    then have acc: "is_accumulator h0 acc" using T t unfolding is_accumulator_iff by auto
    then have "acc < length (tensors h)" using inv_accumulator(1) [OF wf inv] len by fastforce
    then show ?thesis
      using Some t len put_accumulator_frame [OF acc]
      by (auto simp add: accumulate_def get_tensor_def data_setter_def frame_refl
          split: option.splits sum.splits)
  qed
qed

lemma propagate_frame:
  assumes call: "\<And>h t s. frame h0 h0 h \<Longrightarrow> t < length (tensors h0) \<Longrightarrow>
                    frame h0 h (heap_of (call h t s))"
    and inv: "frame h0 h0 h" and d: "tensor dep < length (tensors h0)"
  shows "frame h0 h (heap_of (propagate call g dep h))"
proof -
  have "frame h0 h (heap_of (call h1 (tensor dep) s))"
    if "Tensor_fields h a False None = Return u h1" for a u h1 s
  proof -
    have 1: "frame h0 h h1" using Tensor_fields_frame [of h0 h a False None] that by simp
    then have "frame h0 h0 h1" using inv frame_trans by blast
    then have "frame h0 h1 (heap_of (call h1 (tensor dep) s))" using call d by blast
    then show ?thesis using 1 frame_trans by blast
  qed
  moreover have "frame h0 h h1" if "Tensor_fields h a False None = Raise e h1" for a e h1
    using Tensor_fields_frame [of h0 h a False None] that by simp
  ultimately show ?thesis
    by (auto simp add: propagate_def Tensor_init_no_grad frame_refl
        split: option.splits sum.splits result.splits)
qed

lemma inv_deps:
  assumes "well_formed h0" "frame h0 h0 h" "get_list h l = Some deps" "dep \<in> set deps"
  shows "tensor dep < length (tensors h0)"
proof -
  have "lists h = lists h0" using assms(2) by (simp add: frame_def)
  then have "deps \<in> set (lists h0)"
    using assms(3) by (auto simp add: get_list_def split: if_splits)
  then show ?thesis using assms(1,4) unfolding well_formed_iff by blast
qed

lemma accumulate_node:
  assumes "accumulate h self g = Return u h2" "get_tensor h self = Some T"
  shows "\<exists>T2. get_tensor h2 self = Some T2 \<and> depends_on T2 = depends_on T \<and>
           requires_grad T2 = requires_grad T"
  using assms
  by (auto simp add: accumulate_def data_setter_def put_tensor_def get_tensor_def nth_list_update
      split: option.splits sum.splits if_splits)

lemma backward_body_frame:
  assumes wf: "well_formed h0"
    and call: "\<And>h t s. frame h0 h0 h \<Longrightarrow> t < length (tensors h0) \<Longrightarrow>
                    frame h0 h (heap_of (call h t s))"
    and inv: "frame h0 h0 h" and t: "self < length (tensors h0)"
  shows "frame h0 h (heap_of (backward_body call h self seed))"
proof -
  have len: "length (tensors h0) \<le> length (tensors h)" using inv by (simp add: frame_def)
  then have T: "get_tensor h self = Some (tensors h ! self)" using t by (simp add: get_tensor_def)
  show ?thesis
  proof (cases "requires_grad (tensors h ! self)")
    case False
    then show ?thesis using T by (simp add: backward_body_def frame_refl)
  next
    case rg: True
    have rest: "frame h0 h (heap_of (accumulate_and_propagate call h1 self g))"
      if h1: "frame h0 h h1" "tensors h1 ! self = tensors h ! self" for h1 g
    proof -
      have inv1: "frame h0 h0 h1" using inv h1(1) frame_trans by blast
      have rg1: "requires_grad (tensors h1 ! self)" using rg h1(2) by simp
      have a: "frame h0 h1 (heap_of (accumulate h1 self g))"
        using accumulate_frame [OF wf inv1 t rg1] .
      show ?thesis
      proof (cases "accumulate h1 self g")
        case (Raise e h2)
        then show ?thesis using a h1(1) frame_trans
          by (fastforce simp add: accumulate_and_propagate_def)
      next
        case (Return u h2)
        then have 12: "frame h0 h1 h2" using a by simp
        then have inv2: "frame h0 h0 h2" using inv1 frame_trans by blast
        have 02: "frame h0 h h2" using h1(1) 12 frame_trans by blast
        have loop: "frame h0 h2 (heap_of (for_each (propagate call g) deps h2))"
          if "get_list h2 l = Some deps" for l deps
        proof (rule for_each_rel [where I = "frame h0 h0"])
          show "frame h0 h0 h2" by (rule inv2)
        next
          fix x h
          assume "x \<in> set deps" "frame h0 h0 h"
          moreover have "lists h2 = lists h0" using inv2 by (simp add: frame_def)
          moreover have "deps \<in> set (lists h0)"
            using that \<open>lists h2 = lists h0\<close> by (auto simp add: get_list_def split: if_splits)
          ultimately have "tensor x < length (tensors h0)"
            using wf unfolding well_formed_iff by blast
          then show "frame h0 h (heap_of (propagate call g x h))"
            using \<open>frame h0 h0 h\<close> call
            by (intro propagate_frame [where call = call and h = h and dep = x and g = g])
        qed (auto intro: frame_refl frame_trans)
        show ?thesis
          using Return 02 loop
          by (auto simp add: accumulate_and_propagate_def split: option.splits intro: frame_trans)
      qed
    qed
    show ?thesis
    proof (cases seed)
      case (Some g)
      then show ?thesis using T rg rest [of h g] by (simp add: backward_body_def frame_refl)
    next
      case None
      show ?thesis
      proof (cases "shape (tensors h ! self) = []")
        case True
        have "frame h0 h (heap_of (Tensor_fields h (Float 1) False None))"
          by (rule Tensor_fields_frame)
        moreover have "tensors (heap_of (Tensor_fields h (Float 1) False None)) ! self
              = tensors h ! self"
          using t len by (simp add: Tensor_fields_def nth_append)
        ultimately show ?thesis
          using T rg None True rest [of "heap_of (Tensor_fields h (Float 1) False None)"]
          by (simp add: backward_body_def Tensor_init_no_grad Tensor_fields_ok)
      next
        case False
        then show ?thesis using T rg None by (simp add: backward_body_def frame_refl)
      qed
    qed
  qed
qed

lemma backward_frame:
  assumes "well_formed h0"
  shows "frame h0 h0 h \<Longrightarrow> t < length (tensors h0) \<Longrightarrow> frame h0 h (heap_of (backward n h t s))"
proof (induction n arbitrary: h t s)
  case 0
  show ?case
    by (simp, rule backward_body_frame [OF assms _ 0]) (simp add: frame_refl)
next
  case (Suc n)
  show ?case
    by (simp, rule backward_body_frame [OF assms _ Suc.prems]) (rule Suc.IH)
qed

lemma map2_add_commute:
  "map2 (+) (map2 (+) xs d) ys = map2 (+) (map2 (+) xs ys) (d::real list)"
proof (induction xs arbitrary: d ys)
  case Nil
  then show ?case by simp
next
  case (Cons x xs)
  then show ?case by (cases d; cases ys) simp_all
qed

lemma seeds_agree_frame:
  assumes "seeds_agree h0 h s h' s'" "frame h0 h h2" "frame h0 h' h2'"
  shows "seeds_agree h0 h2 s h2' s'"
proof -
  have s: "s < length (tensors h)" "s' < length (tensors h')"
    "\<not> is_accumulator h0 s" "\<not> is_accumulator h0 s'"
    using assms(1) by (auto simp add: seeds_agree_def)
  have "tensors h2 ! s = tensors h ! s" using assms(2) s unfolding frame_def by metis
  moreover have "tensors h2' ! s' = tensors h' ! s'" using assms(3) s unfolding frame_def by metis
  moreover have "length (tensors h) \<le> length (tensors h2)" "length (tensors h') \<le> length (tensors h2')"
    using assms(2,3) by (auto simp add: frame_def)
  ultimately show ?thesis using assms(1) by (auto simp add: seeds_agree_def)
qed

lemma sim_same:
  assumes "sim h0 D h h'"
    and "\<And>r. is_accumulator h0 r \<Longrightarrow> tensors h2 ! r = tensors h ! r"
    and "\<And>r. is_accumulator h0 r \<Longrightarrow> tensors h2' ! r = tensors h' ! r"
  shows "sim h0 D h2 h2'"
  using assms by (simp add: sim_def)

lemma alloc_keeps:
  assumes "well_formed h0" "frame h0 h0 h" "Tensor_fields h d rg deps = Return t h1"
  shows "t = length (tensors h)" "frame h0 h0 h1" "frame h0 h h1"
    "\<And>r. r < length (tensors h) \<Longrightarrow> tensors h1 ! r = tensors h ! r"
    "\<And>r. is_accumulator h0 r \<Longrightarrow> tensors h1 ! r = tensors h ! r"
    "\<not> is_accumulator h0 t" "t < length (tensors h1)"
    "ensure_array d = Inr (data (tensors h1 ! t))"
proof -
  show t: "t = length (tensors h)" using assms(3) by (auto simp add: Tensor_fields_def split: sum.splits)
  show 1: "frame h0 h h1" using Tensor_fields_frame [of h0 h d rg deps] assms(3) by simp
  then show "frame h0 h0 h1" using assms(2) frame_trans by blast
  show old: "\<And>r. r < length (tensors h) \<Longrightarrow> tensors h1 ! r = tensors h ! r"
    using assms(3) by (auto simp add: Tensor_fields_def nth_append split: sum.splits)
  have len: "length (tensors h0) \<le> length (tensors h)" using assms(2) by (simp add: frame_def)
  show "\<And>r. is_accumulator h0 r \<Longrightarrow> tensors h1 ! r = tensors h ! r"
    using old inv_accumulator(1) [OF assms(1,2)] len by fastforce
  show "\<not> is_accumulator h0 t" using inv_accumulator(1) [OF assms(1,2)] len t by fastforce
  show "t < length (tensors h1)" using assms(3) by (auto simp add: Tensor_fields_def split: sum.splits)
  show "ensure_array d = Inr (data (tensors h1 ! t))"
    using assms(3) by (auto simp add: Tensor_fields_def split: sum.splits)
qed

lemma for_each_sim:
  assumes step: "\<And>x h h'. x \<in> set xs \<Longrightarrow> J h h' \<Longrightarrow>
      same_outcome (body x h) (body' x h') \<and> J (heap_of (body x h)) (heap_of (body' x h'))"
  shows "J h h' \<Longrightarrow> same_outcome (for_each body xs h) (for_each body' xs h') \<and>
           J (heap_of (for_each body xs h)) (heap_of (for_each body' xs h'))"
  using step
proof (induction xs arbitrary: h h')
  case Nil
  then show ?case by simp
next
  case (Cons x xs)
  have 1: "same_outcome (body x h) (body' x h')" "J (heap_of (body x h)) (heap_of (body' x h'))"
    using Cons.prems by simp_all
  show ?case
  proof (cases "body x h")
    case (Return u h1)
    then obtain u' h1' where r': "body' x h' = Return u' h1'"
      using 1(1) by (cases "body' x h'") simp_all
    have "J h1 h1'" using 1(2) Return r' by simp
    then show ?thesis using Cons.IH [of h1 h1'] Cons.prems(2) Return r' by simp
  next
    case (Raise e h1)
    then obtain h1' where r': "body' x h' = Raise e h1'"
      using 1(1) by (cases "body' x h'") simp_all
    then show ?thesis using 1(2) Raise by simp
  qed
qed

lemma propagate_sim:
  assumes wf: "well_formed h0"
    and callsim: "\<And>h h' t s s'. paired h0 D h h' \<Longrightarrow> seeds_agree h0 h s h' s' \<Longrightarrow>
        t < length (tensors h0) \<Longrightarrow>
        same_outcome (call h t (Some s)) (call h' t (Some s')) \<and>
        sim h0 D (heap_of (call h t (Some s))) (heap_of (call h' t (Some s')))"
    and callframe: "\<And>h t s. frame h0 h0 h \<Longrightarrow> t < length (tensors h0) \<Longrightarrow>
        frame h0 h (heap_of (call h t s))"
    and p: "paired h0 D h h'" and sa: "seeds_agree h0 h s h' s'"
    and d: "tensor dep < length (tensors h0)"
  shows "same_outcome (propagate call s dep h) (propagate call s' dep h') \<and>
         (paired h0 D (heap_of (propagate call s dep h)) (heap_of (propagate call s' dep h')) \<and>
          seeds_agree h0 (heap_of (propagate call s dep h)) s (heap_of (propagate call s' dep h')) s')"
proof -
  have inv: "frame h0 h0 h" "frame h0 h0 h'" and sim: "sim h0 D h h'"
    using p by (auto simp add: paired_def)
  have f: "frame h0 h (heap_of (propagate call s dep h))"
    by (rule propagate_frame [where call = call, OF callframe inv(1) d])
  have f': "frame h0 h' (heap_of (propagate call s' dep h'))"
    by (rule propagate_frame [where call = call, OF callframe inv(2) d])
  have sa2: "seeds_agree h0 (heap_of (propagate call s dep h)) s (heap_of (propagate call s' dep h')) s'"
    using seeds_agree_frame [OF sa f f'] .
  have invs: "frame h0 h0 (heap_of (propagate call s dep h))"
    "frame h0 h0 (heap_of (propagate call s' dep h'))"
    using inv f f' frame_trans by blast+
  have G: "get_tensor h s = Some (tensors h ! s)" "get_tensor h' s' = Some (tensors h' ! s')"
    "data (tensors h ! s) = data (tensors h' ! s')"
    using sa by (auto simp add: seeds_agree_def get_tensor_def)
  have main: "same_outcome (propagate call s dep h) (propagate call s' dep h') \<and>
         sim h0 D (heap_of (propagate call s dep h)) (heap_of (propagate call s' dep h'))"
  proof (cases "grad_fn dep (data (tensors h ! s))")
    case (Inl e)
    then show ?thesis using G sim by (simp add: propagate_def)
  next
    case (Inr bg)
    obtain t h1 where a: "Tensor_fields h (NDArray bg) False None = Return t h1"
      by (simp add: Tensor_fields_ok)
    obtain t' h1' where a': "Tensor_fields h' (NDArray bg) False None = Return t' h1'"
      by (simp add: Tensor_fields_ok)
    note k = alloc_keeps [OF wf inv(1) a] and k' = alloc_keeps [OF wf inv(2) a']
    have "sim h0 D h1 h1'" using sim k(5) k'(5) by (rule sim_same)
    then have p1: "paired h0 D h1 h1'" using k(2) k'(2) by (simp add: paired_def)
    have "data (tensors h1 ! t) = bg" "data (tensors h1' ! t') = bg"
      using k(8) k'(8) by simp_all
    then have sa1: "seeds_agree h0 h1 t h1' t'"
      using k(6,7) k'(6,7) by (simp add: seeds_agree_def)
    show ?thesis
      using callsim [OF p1 sa1 d] G Inr a a'
      by (simp add: propagate_def Tensor_init_no_grad)
  qed
  then show ?thesis using sa2 invs by (simp add: paired_def)
qed

lemma np_iadd_sim:
  assumes "dims x' = dims x" "elems x' = map2 (+) (elems x) d"
  shows "(case np_iadd x y of
            Inl e \<Rightarrow> np_iadd x' y = Inl e
          | Inr a \<Rightarrow> (\<exists>a'. np_iadd x' y = Inr a' \<and> dims a' = dims a \<and>
                         elems a' = map2 (+) (elems a) d))"
  using assms by (auto simp add: np_iadd_def map2_add_commute split: option.splits)

lemma accumulate_sim:
  assumes wf: "well_formed h0" and p: "paired h0 D h h'" and sa: "seeds_agree h0 h s h' s'"
    and t: "self < length (tensors h0)" and rg: "requires_grad (tensors h ! self)"
  shows "same_outcome (accumulate h self s) (accumulate h' self s') \<and>
         sim h0 D (heap_of (accumulate h self s)) (heap_of (accumulate h' self s'))"
proof -
  have inv: "frame h0 h0 h" "frame h0 h0 h'" and sim: "sim h0 D h h'"
    using p by (auto simp add: paired_def)
  have len: "length (tensors h0) \<le> length (tensors h)" "length (tensors h0) \<le> length (tensors h')"
    using inv by (auto simp add: frame_def)
  have T: "tensors h ! self = tensors h0 ! self" and na: "\<not> is_accumulator h0 self"
    using inv_node [OF wf inv(1) t rg] by simp_all
  have T': "tensors h' ! self = tensors h0 ! self"
    using inv(2) t na unfolding frame_def by metis
  have gt: "get_tensor h self = Some (tensors h0 ! self)" "get_tensor h' self = Some (tensors h0 ! self)"
    using t len T T' by (auto simp add: get_tensor_def)
  have G: "get_tensor h s = Some (tensors h ! s)" "get_tensor h' s' = Some (tensors h' ! s')"
    "data (tensors h' ! s') = data (tensors h ! s)"
    using sa by (auto simp add: seeds_agree_def get_tensor_def)
  show ?thesis
  proof (cases "grad (tensors h0 ! self)")
    case None
    then show ?thesis using gt sim by (simp add: accumulate_def)
  next
    case (Some acc)
    then have acc: "is_accumulator h0 acc" using t unfolding is_accumulator_iff by auto
    then have accN: "acc < length (tensors h0)" using inv_accumulator(1) [OF wf inv(1)] by simp
    have ga: "get_tensor h acc = Some (tensors h ! acc)" "get_tensor h' acc = Some (tensors h' ! acc)"
      using accN len by (auto simp add: get_tensor_def)
    have rel: "dims (data (tensors h' ! acc)) = dims (data (tensors h ! acc))"
      "elems (data (tensors h' ! acc)) = map2 (+) (elems (data (tensors h ! acc))) (D acc)"
      using sim acc by (auto simp add: sim_def)
    note io = np_iadd_sim [OF rel, of "data (tensors h ! s)"]
    show ?thesis
    proof (cases "np_iadd (data (tensors h ! acc)) (data (tensors h ! s))")
      case (Inl e)
      then show ?thesis using io gt Some ga G sim by (simp add: accumulate_def)
    next
      case (Inr a)
      then obtain a' where a': "np_iadd (data (tensors h' ! acc)) (data (tensors h ! s)) = Inr a'"
        "dims a' = dims a" "elems a' = map2 (+) (elems a) (D acc)"
        using io by auto
      have "sim h0 D (put_tensor h acc ((tensors h ! acc)\<lparr>data := a, grad := None\<rparr>))
              (put_tensor h' acc ((tensors h' ! acc)\<lparr>data := a', grad := None\<rparr>))"
        using sim a'(2,3) accN len
        by (auto simp add: sim_def put_tensor_def nth_list_update)
      then show ?thesis
        using Inr a'(1) gt Some ga G by (simp add: accumulate_def data_setter_def)
    qed
  qed
qed

lemma backward_rest_sim:
  assumes wf: "well_formed h0"
    and callsim: "\<And>h h' t s s'. paired h0 D h h' \<Longrightarrow> seeds_agree h0 h s h' s' \<Longrightarrow>
        t < length (tensors h0) \<Longrightarrow>
        same_outcome (call h t (Some s)) (call h' t (Some s')) \<and>
        sim h0 D (heap_of (call h t (Some s))) (heap_of (call h' t (Some s')))"
    and callframe: "\<And>h t s. frame h0 h0 h \<Longrightarrow> t < length (tensors h0) \<Longrightarrow>
        frame h0 h (heap_of (call h t s))"
    and p: "paired h0 D h h'" and sa: "seeds_agree h0 h s h' s'"
    and t: "self < length (tensors h0)" and rg: "requires_grad (tensors h ! self)"
  shows "same_outcome (accumulate_and_propagate call h self s)
           (accumulate_and_propagate call h' self s') \<and>
         sim h0 D (heap_of (accumulate_and_propagate call h self s))
           (heap_of (accumulate_and_propagate call h' self s'))"
proof -
  have inv: "frame h0 h0 h" "frame h0 h0 h'" and sim: "sim h0 D h h'"
    using p by (auto simp add: paired_def)
  have na: "\<not> is_accumulator h0 self" and T: "tensors h ! self = tensors h0 ! self"
    using inv_node [OF wf inv(1) t rg] by simp_all
  have T': "tensors h' ! self = tensors h0 ! self"
    using inv(2) t na unfolding frame_def by metis
  have rg': "requires_grad (tensors h' ! self)" using rg T T' by simp
  note a = accumulate_sim [OF wf p sa t rg]
  have fa: "frame h0 h (heap_of (accumulate h self s))"
    using accumulate_frame [OF wf inv(1) t rg] .
  have fa': "frame h0 h' (heap_of (accumulate h' self s'))"
    using accumulate_frame [OF wf inv(2) t rg'] .
  show ?thesis
  proof (cases "accumulate h self s")
    case (Raise e h2)
    then obtain h2' where r': "accumulate h' self s' = Raise e h2'"
      using a by (cases "accumulate h' self s'") simp_all
    show ?thesis using a Raise r' by (simp add: accumulate_and_propagate_def)
  next
    case (Return u h2)
    then obtain u' h2' where r': "accumulate h' self s' = Return u' h2'"
      using a by (cases "accumulate h' self s'") simp_all
    have f2: "frame h0 h h2" "frame h0 h' h2'" using fa fa' Return r' by simp_all
    then have inv2: "frame h0 h0 h2" "frame h0 h0 h2'" using inv frame_trans by blast+
    have p2: "paired h0 D h2 h2'" using inv2 a Return r' by (simp add: paired_def)
    have sa2: "seeds_agree h0 h2 s h2' s'" using seeds_agree_frame [OF sa f2] .
    have len2: "length (tensors h0) \<le> length (tensors h2)" "length (tensors h0) \<le> length (tensors h2')"
      using inv2 by (auto simp add: frame_def)
    have "tensors h2 ! self = tensors h0 ! self" "tensors h2' ! self = tensors h0 ! self"
      using inv2 t na unfolding frame_def by metis+
    then have g2: "get_tensor h2 self = Some (tensors h0 ! self)"
      "get_tensor h2' self = Some (tensors h0 ! self)"
      using t len2 by (auto simp add: get_tensor_def)
    have l2: "lists h2 = lists h0" "lists h2' = lists h0" using inv2 by (auto simp add: frame_def)
    then have gl: "get_list h2' l = get_list h2 l" for l by (simp add: get_list_def)
    show ?thesis
    proof (cases "get_list h2 (depends_on (tensors h0 ! self))")
      case None
      then show ?thesis using Return r' g2 gl p2
        by (simp add: paired_def accumulate_and_propagate_def)
    next
      case (Some deps)
      have dN: "tensor x < length (tensors h0)" if "x \<in> set deps" for x
        using inv_deps [OF wf inv2(1) Some that] .
      have "same_outcome (for_each (propagate call s) deps h2) (for_each (propagate call s') deps h2') \<and>
           (paired h0 D (heap_of (for_each (propagate call s) deps h2))
               (heap_of (for_each (propagate call s') deps h2')) \<and>
            seeds_agree h0 (heap_of (for_each (propagate call s) deps h2)) s
               (heap_of (for_each (propagate call s') deps h2')) s')"
      proof (rule for_each_sim [where J = "\<lambda>h h'. paired h0 D h h' \<and> seeds_agree h0 h s h' s'"])
        show "paired h0 D h2 h2' \<and> seeds_agree h0 h2 s h2' s'" using p2 sa2 by simp
      next
        fix x h h'
        assume x: "x \<in> set deps" and J: "paired h0 D h h' \<and> seeds_agree h0 h s h' s'"
        show "same_outcome (propagate call s x h) (propagate call s' x h') \<and>
           paired h0 D (heap_of (propagate call s x h)) (heap_of (propagate call s' x h')) \<and>
           seeds_agree h0 (heap_of (propagate call s x h)) s (heap_of (propagate call s' x h')) s'"
          using J dN [OF x] callsim callframe
          by (intro propagate_sim [where call = call, OF wf]) auto
      qed
      then show ?thesis using Return r' g2 gl Some
        by (simp add: paired_def accumulate_and_propagate_def)
    qed
  qed
qed

lemma backward_body_sim:
  assumes wf: "well_formed h0"
    and callsim: "\<And>h h' t s s'. paired h0 D h h' \<Longrightarrow> seeds_agree h0 h s h' s' \<Longrightarrow>
        t < length (tensors h0) \<Longrightarrow>
        same_outcome (call h t (Some s)) (call h' t (Some s')) \<and>
        sim h0 D (heap_of (call h t (Some s))) (heap_of (call h' t (Some s')))"
    and callframe: "\<And>h t s. frame h0 h0 h \<Longrightarrow> t < length (tensors h0) \<Longrightarrow>
        frame h0 h (heap_of (call h t s))"
    and p: "paired h0 D h h'" and sr: "seeds_related h0 h seed h' seed'"
    and t: "self < length (tensors h0)"
  shows "same_outcome (backward_body call h self seed) (backward_body call h' self seed') \<and>
         sim h0 D (heap_of (backward_body call h self seed))
           (heap_of (backward_body call h' self seed'))"
proof -
  have inv: "frame h0 h0 h" "frame h0 h0 h'" and sim: "sim h0 D h h'"
    using p by (auto simp add: paired_def)
  have len: "length (tensors h0) \<le> length (tensors h)" "length (tensors h0) \<le> length (tensors h')"
    using inv by (auto simp add: frame_def)
  have gt: "get_tensor h self = Some (tensors h ! self)" "get_tensor h' self = Some (tensors h' ! self)"
    using t len by (auto simp add: get_tensor_def)
  show ?thesis
  proof (cases "is_accumulator h0 self")
    case True
    then have "\<not> requires_grad (tensors h ! self)" "\<not> requires_grad (tensors h' ! self)"
      using inv_accumulator(2) [OF wf] inv by blast+
    then show ?thesis using gt sim by (simp add: backward_body_def)
  next
    case False
    then have T: "tensors h ! self = tensors h0 ! self" "tensors h' ! self = tensors h0 ! self"
      using inv t unfolding frame_def by metis+
    show ?thesis
    proof (cases "requires_grad (tensors h0 ! self)")
      case False
      then show ?thesis using gt T sim by (simp add: backward_body_def)
    next
      case rg: True
      show ?thesis
      proof (cases seed)
        case (Some s)
        then obtain s' where s': "seed' = Some s'" "seeds_agree h0 h s h' s'"
          using sr by (cases seed') simp_all
        have "requires_grad (tensors h ! self)" using rg T by simp
        then show ?thesis
          using backward_rest_sim [where call = call, OF wf callsim callframe p s'(2) t]
            Some s'(1) gt T rg
          by (simp add: backward_body_def)
      next
        case None
        then have n': "seed' = None" using sr by (cases seed') simp_all
        show ?thesis
        proof (cases "shape (tensors h0 ! self) = []")
          case False
          then show ?thesis using None n' gt T rg sim by (simp add: backward_body_def)
        next
          case True
          obtain g h1 where a: "Tensor_fields h (Float 1) False None = Return g h1"
            by (simp add: Tensor_fields_ok)
          obtain g' h1' where a': "Tensor_fields h' (Float 1) False None = Return g' h1'"
            by (simp add: Tensor_fields_ok)
          note k = alloc_keeps [OF wf inv(1) a] and k' = alloc_keeps [OF wf inv(2) a']
          have "sim h0 D h1 h1'" using sim k(5) k'(5) by (rule sim_same)
          then have p1: "paired h0 D h1 h1'" using k(2) k'(2) by (simp add: paired_def)
          have "data (tensors h1 ! g) = data (tensors h1' ! g')"
            using k(8) k'(8) by simp
          then have sa1: "seeds_agree h0 h1 g h1' g'"
            using k(6,7) k'(6,7) by (simp add: seeds_agree_def)
          have "tensors h1 ! self = tensors h ! self" using k(4) t len by simp
          then have "requires_grad (tensors h1 ! self)" using rg T by simp
          then show ?thesis
            using backward_rest_sim [where call = call, OF wf callsim callframe p1 sa1 t]
              None n' gt T rg True a a'
            by (simp add: backward_body_def Tensor_init_no_grad)
        qed
      qed
    qed
  qed
qed

lemma backward_sim:
  assumes wf: "well_formed h0"
  shows "paired h0 D h h' \<Longrightarrow> seeds_related h0 h seed h' seed' \<Longrightarrow> t < length (tensors h0) \<Longrightarrow>
         same_outcome (backward n h t seed) (backward n h' t seed') \<and>
         sim h0 D (heap_of (backward n h t seed)) (heap_of (backward n h' t seed'))"
proof (induction n arbitrary: h h' t seed seed')
  case 0
  show ?case
    unfolding backward.simps
    by (rule backward_body_sim [OF wf _ _ 0]) (simp_all add: paired_def frame_refl)
next
  case (Suc n)
  show ?case
    unfolding backward.simps
  proof (rule backward_body_sim [OF wf _ _ Suc.prems])
    show "same_outcome (backward n h t (Some s)) (backward n h' t (Some s')) \<and>
        sim h0 D (heap_of (backward n h t (Some s))) (heap_of (backward n h' t (Some s')))"
      if "paired h0 D h h'" "seeds_agree h0 h s h' s'" "t < length (tensors h0)" for h h' t s s'
      using Suc.IH [of h h' "Some s" "Some s'" t] that by simp
    show "frame h0 h (heap_of (backward n h t s))"
      if "frame h0 h0 h" "t < length (tensors h0)" for h t s
      using backward_frame [OF wf that] .
  qed
qed

lemma twice_general:
  "e1 = map2 (+) e0 (D::real list) \<Longrightarrow> map2 (+) e1 D = map2 (+) e1 (map2 (-) e1 e0)"
proof (induction e0 arbitrary: e1 D)
  case Nil
  then show ?case by simp
next
  case (Cons x xs)
  then show ?case by (cases D) simp_all
qed

lemma twice_from_zero:
  "e1 = map2 (+) e0 (D::real list) \<Longrightarrow> list_all (\<lambda>x. x = 0) e0 \<Longrightarrow>
   map2 (+) e1 D = map ((*) 2) e1"
proof (induction e0 arbitrary: e1 D)
  case Nil
  then show ?case by simp
next
  case (Cons x xs)
  then show ?case by (cases D) simp_all
qed

lemma zero_grad_zeros:
  assumes "get_tensor h t = Some T"
  shows "\<exists>h3 T3 g3 G3. zero_grad h t = Return () h3 \<and> get_tensor h3 t = Some T3 \<and>
           data T3 = data T \<and> grad T3 = Some g3 \<and> get_tensor h3 g3 = Some G3 \<and>
           data G3 = zeros_like (data T)"
  using assms
  by (auto simp add: zero_grad_def Tensor_fields_def get_tensor_def put_tensor_def nth_append
      split: if_splits)

text \<open>
  Claim C1. \<open>backward\<close> adds to the gradients and never resets them. On a well-formed
  heap, if one call of \<open>backward\<close> on a node returns, then a second call with the same
  seed (omitted, so the scalar 1, or a tensor that is not a gradient) returns too, and it
  adds to the gradient of every tensor exactly what the first call added: the gradient
  after two calls is the gradient after one call plus the difference the first call made.
  So a gradient that was zero before is, after two calls, twice what it is after one.
  A \<open>zero_grad\<close> on the tensor then gives it a gradient of zeros with the shape of its
  data.
\<close>

theorem backward_twice:
  assumes wf: "well_formed h0" and node: "node < length (tensors h0)" and seed: "seed_ok h0 seed"
    and first: "backward n h0 node seed = Return () h1"
    and owner: "get_tensor h0 t = Some T" "grad T = Some g"
  shows "\<exists>h2 G0 G1 G2. backward n h1 node seed = Return () h2 \<and>
           get_tensor h0 g = Some G0 \<and> get_tensor h1 g = Some G1 \<and> get_tensor h2 g = Some G2 \<and>
           dims (data G2) = dims (data G0) \<and>
           elems (data G2) =
             map2 (+) (elems (data G1)) (map2 (-) (elems (data G1)) (elems (data G0))) \<and>
           (list_all (\<lambda>x. x = 0) (elems (data G0)) \<longrightarrow>
              elems (data G2) = map ((*) 2) (elems (data G1))) \<and>
           (\<exists>T2 h3 T3 g3 G3. get_tensor h2 t = Some T2 \<and> zero_grad h2 t = Return () h3 \<and>
              get_tensor h3 t = Some T3 \<and> grad T3 = Some g3 \<and> get_tensor h3 g3 = Some G3 \<and>
              dims (data G3) = dims (data T2) \<and>
              elems (data G3) = replicate (prod_list (dims (data T2))) 0)"
proof -
  let ?N = "length (tensors h0)"
  have f1: "frame h0 h0 h1"
    using backward_frame [OF wf frame_refl node, of n seed] first by simp
  have "\<forall>r. \<exists>d. is_accumulator h0 r \<longrightarrow>
          elems (data (tensors h1 ! r)) = map2 (+) (elems (data (tensors h0 ! r))) d"
  proof
    fix r
    show "\<exists>d. is_accumulator h0 r \<longrightarrow>
          elems (data (tensors h1 ! r)) = map2 (+) (elems (data (tensors h0 ! r))) d"
    proof (cases "is_accumulator h0 r")
      case True
      then have "r < ?N" using inv_accumulator(1) [OF wf frame_refl] by simp
      then show ?thesis using f1 True unfolding frame_def by metis
    next
      case False
      then show ?thesis by simp
    qed
  qed
  then obtain D where D: "\<And>r. is_accumulator h0 r \<Longrightarrow>
          elems (data (tensors h1 ! r)) = map2 (+) (elems (data (tensors h0 ! r))) (D r)"
    by metis
  have dims1: "dims (data (tensors h1 ! r)) = dims (data (tensors h0 ! r))"
    if "is_accumulator h0 r" for r
  proof -
    have "r < ?N" using that inv_accumulator(1) [OF wf frame_refl] by simp
    then show ?thesis using f1 that unfolding frame_def by metis
  qed
  have p: "paired h0 D h0 h1"
    using f1 D dims1 by (simp add: paired_def frame_refl sim_def)
  have len1: "?N \<le> length (tensors h1)" using f1 by (simp add: frame_def)
  have sr: "seeds_related h0 h0 seed h1 seed"
  proof (cases seed)
    case None
    then show ?thesis by simp
  next
    case (Some s)
    then have s: "s < ?N" "\<not> is_accumulator h0 s" using seed by (simp_all add: seed_ok_def)
    then have "tensors h1 ! s = tensors h0 ! s" using f1 unfolding frame_def by metis
    then show ?thesis using Some s len1 by (simp add: seeds_agree_def)
  qed
  note second = backward_sim [OF wf p sr node, of n]
  then obtain h2 where h2: "backward n h1 node seed = Return () h2"
    using first by (cases "backward n h1 node seed") simp_all
  have sim2: "sim h0 D h1 h2" using second first h2 by simp
  have f2: "frame h0 h1 h2"
    using backward_frame [OF wf f1 node, of n seed] h2 by simp
  have len2: "length (tensors h1) \<le> length (tensors h2)" using f2 by (simp add: frame_def)
  have t: "t < ?N" "tensors h0 ! t = T"
    using owner(1) by (auto simp add: get_tensor_def split: if_splits)
  then have acc: "is_accumulator h0 g" using owner(2) unfolding is_accumulator_iff by auto
  then have g: "g < ?N" using inv_accumulator(1) [OF wf frame_refl] by simp
  have e1: "elems (data (tensors h1 ! g)) = map2 (+) (elems (data (tensors h0 ! g))) (D g)"
    using D acc by simp
  have e2: "elems (data (tensors h2 ! g)) = map2 (+) (elems (data (tensors h1 ! g))) (D g)"
    and d2: "dims (data (tensors h2 ! g)) = dims (data (tensors h1 ! g))"
    using sim2 acc by (simp_all add: sim_def)
  have gen: "elems (data (tensors h2 ! g)) =
      map2 (+) (elems (data (tensors h1 ! g)))
        (map2 (-) (elems (data (tensors h1 ! g))) (elems (data (tensors h0 ! g))))"
    using twice_general [OF e1] e2 by simp
  have zero: "elems (data (tensors h2 ! g)) = map ((*) 2) (elems (data (tensors h1 ! g)))"
    if "list_all (\<lambda>x. x = 0) (elems (data (tensors h0 ! g)))"
    using twice_from_zero [OF e1 that] e2 by simp
  have gets: "get_tensor h0 g = Some (tensors h0 ! g)" "get_tensor h1 g = Some (tensors h1 ! g)"
    "get_tensor h2 g = Some (tensors h2 ! g)" "get_tensor h2 t = Some (tensors h2 ! t)"
    using g t len1 len2 by (auto simp add: get_tensor_def)
  have zg: "\<exists>h3 T3 g3 G3. zero_grad h2 t = Return () h3 \<and>
              get_tensor h3 t = Some T3 \<and> grad T3 = Some g3 \<and> get_tensor h3 g3 = Some G3 \<and>
              dims (data G3) = dims (data (tensors h2 ! t)) \<and>
              elems (data G3) = replicate (prod_list (dims (data (tensors h2 ! t)))) 0"
    using zero_grad_zeros [OF gets(4)] by (auto simp add: zeros_like_def)
  show ?thesis
    using h2 gets gen zero zg d2 dims1 [OF acc] by auto
qed

lemmas ex_graph_defs = ex_graph_def ex_graph_once_def ex_a_def ex_c_def ex_zero_def ex_one_def
  scalar_def

lemmas run_defs = backward_body_def accumulate_and_propagate_def accumulate_def propagate_def
  Tensor_init_no_grad Tensor_fields_def data_setter_def put_tensor_def get_tensor_def
  get_list_def np_iadd_def broadcast_to_def default_depends_on_def

lemma ex_graph_run: "backward 2 ex_graph 2 None = Return () ex_graph_once"
  by (simp add: numeral_2_eq_2 run_defs ex_graph_defs)

lemma ex_graph_wf: "well_formed ex_graph"
  by (simp add: well_formed_def get_tensor_def ex_graph_defs)

theorem backward_twice_witness:
  "well_formed ex_graph \<and> 2 < length (tensors ex_graph) \<and> seed_ok ex_graph None \<and>
   backward 2 ex_graph 2 None = Return () ex_graph_once \<and>
   get_tensor ex_graph 0 = Some ex_a \<and> grad ex_a = Some 1 \<and>
   (\<exists>h2 G0 G1 G2. backward 2 ex_graph_once 2 None = Return () h2 \<and>
      get_tensor ex_graph 1 = Some G0 \<and> get_tensor ex_graph_once 1 = Some G1 \<and>
      get_tensor h2 1 = Some G2 \<and>
      list_all (\<lambda>x. x = 0) (elems (data G0)) \<and> elems (data G1) = [2] \<and>
      elems (data G2) = map ((*) 2) (elems (data G1)) \<and> elems (data G2) = [4])"
proof -
  have r: "(2::nat) < length (tensors ex_graph)" by (simp add: ex_graph_defs)
  have s: "seed_ok ex_graph None" by (simp add: seed_ok_def)
  have o: "get_tensor ex_graph 0 = Some ex_a" "grad ex_a = Some 1"
    by (simp_all add: get_tensor_def ex_graph_defs)
  have g0: "get_tensor ex_graph 1 = Some ex_zero" by (simp add: get_tensor_def ex_graph_def)
  have g1: "get_tensor ex_graph_once 1 = Some (ex_zero\<lparr>data := scalar 2\<rparr>)"
    by (simp add: get_tensor_def ex_graph_once_def)
  have z: "list_all (\<lambda>x. x = 0) (elems (data ex_zero))" by (simp add: ex_zero_def scalar_def)
  have e: "elems (data (ex_zero\<lparr>data := scalar 2\<rparr>)) = [2]" by (simp add: scalar_def)
  from backward_twice [OF ex_graph_wf r s ex_graph_run o]
  obtain h2 G0 G1 G2 where *: "backward 2 ex_graph_once 2 None = Return () h2"
      "get_tensor ex_graph 1 = Some G0" "get_tensor ex_graph_once 1 = Some G1"
      "get_tensor h2 1 = Some G2"
      "list_all (\<lambda>x. x = 0) (elems (data G0)) \<longrightarrow>
              elems (data G2) = map ((*) 2) (elems (data G1))"
    by blast
  have G: "G0 = ex_zero" "G1 = ex_zero\<lparr>data := scalar 2\<rparr>" using * g0 g1 by simp_all
  then have "elems (data G2) = map ((*) 2) (elems (data G1))" using *(5) z by simp
  moreover from this have "elems (data G2) = [4]" using G e by simp
  ultimately show ?thesis
    using ex_graph_wf r s ex_graph_run o * G z e by blast
qed

section \<open>Propagation, and addition\<close>

lemma sum_to_shape_kept_axis_example:
  "sum_to_shape [3,1] \<lparr>dims = [3,2], elems = [1,2,3,4,5,6]\<rparr> = \<lparr>dims = [3,1], elems = [3,7,11]\<rparr>"
  by (simp add: sum_to_shape_def sum_ones.simps rows_def eval_nat_numeral Let_def upt_rec)

lemma sum_to_shape_leading_axis_example:
  "sum_to_shape [2] \<lparr>dims = [3,2], elems = [1,2,3,4,5,6]\<rparr> = \<lparr>dims = [2], elems = [9,12]\<rparr>"
  by (simp add: sum_to_shape_def sum_axis0_def rows_def eval_nat_numeral Let_def upt_rec)

lemma bshape_same: "bshape xs xs = Some xs"
  by (induction xs) simp_all

lemma broadcast_shapes_same: "broadcast_shapes s s = Some s"
  by (simp add: broadcast_shapes_def bshape_same)

lemma np_binop_same_dims:
  "dims x = dims y \<Longrightarrow> np_binop f x y = Inr \<lparr>dims = dims x, elems = map2 f (elems x) (elems y)\<rparr>"
  by (simp add: np_binop_def broadcast_shapes_same broadcast_to_def)

lemma map2_add_zeros_left: "length ys = n \<Longrightarrow> map2 (+) (replicate n (0::real)) ys = ys"
  by (induction ys arbitrary: n) auto

lemma np_iadd_zeros:
  assumes "dims (y::ndarray) = d" "length (elems y) = prod_list d" "dims x = d"
  shows "np_iadd (zeros_like x) y = Inr y"
  using assms by (simp add: np_iadd_def zeros_like_def broadcast_to_def map2_add_zeros_left)

lemma get_tensor_put:
  "get_tensor (put_tensor h r T) r' =
     (if r' = r \<and> r < length (tensors h) then Some T else get_tensor h r')"
  by (auto simp add: get_tensor_def put_tensor_def)

lemma get_list_put [simp]: "get_list (put_tensor h r T) l = get_list h l"
  by (simp add: get_list_def put_tensor_def)

lemma backward_body_leaf:
  assumes "get_tensor h t = Some T" "requires_grad T" "grad T = Some g" "g \<noteq> t"
    "get_tensor h g = Some G" "get_tensor h s = Some S" "np_iadd (data G) (data S) = Inr a"
    "get_list h (depends_on T) = Some []"
  shows "backward_body call h t (Some s) = Return () (put_tensor h g (G\<lparr>data := a, grad := None\<rparr>))"
  using assms
  by (simp add: backward_body_def accumulate_and_propagate_def accumulate_def data_setter_def
      get_tensor_put)

lemma backward_leaf:
  assumes "get_tensor h t = Some T" "requires_grad T" "grad T = Some g" "g \<noteq> t"
    "get_tensor h g = Some G" "get_tensor h s = Some S" "np_iadd (data G) (data S) = Inr a"
    "get_list h (depends_on T) = Some []"
  shows "backward n h t (Some s) = Return () (put_tensor h g (G\<lparr>data := a, grad := None\<rparr>))"
  using backward_body_leaf [OF assms] by (cases n) simp_all

lemma get_tensor_SomeD: "get_tensor h r = Some T \<Longrightarrow> r < length (tensors h) \<and> tensors h ! r = T"
  by (auto simp add: get_tensor_def split: if_splits)

lemma get_list_SomeD: "get_list h l = Some ds \<Longrightarrow> l < length (lists h) \<and> lists h ! l = ds"
  by (auto simp add: get_list_def split: if_splits)

lemma add_then_backward:
  assumes wf: "well_formed h" and ab: "a \<noteq> b"
    and A: "get_tensor h a = Some A" "requires_grad A" "get_list h (depends_on A) = Some []"
      "grad A = Some ga" "get_tensor h ga = Some GA" "data GA = zeros_like (data A)"
    and B: "get_tensor h b = Some B" "requires_grad B" "get_list h (depends_on B) = Some []"
      "grad B = Some gb" "get_tensor h gb = Some GB" "data GB = zeros_like (data B)"
    and gab: "ga \<noteq> gb" and dims: "dims (data A) = dims (data B)"
    and S: "get_tensor h s = Some S" "\<not> is_accumulator h s" "dims (data S) = dims (data A)"
      "length (elems (data S)) = prod_list (dims (data S))"
  shows "\<exists>c h1 h2 GA' GB'. tensor_add h a (ATensor b) = Return c h1 \<and>
           backward (Suc n) h1 c (Some s) = Return () h2 \<and>
           get_tensor h2 a = Some A \<and> get_tensor h2 b = Some B \<and>
           get_tensor h2 ga = Some GA' \<and> data GA' = data S \<and>
           get_tensor h2 gb = Some GB' \<and> data GB' = data S"
proof -
  define N where "N = length (tensors h)"
  define L where "L = length (lists h)"
  note a = get_tensor_SomeD [OF A(1)] and b = get_tensor_SomeD [OF B(1)]
    and ga = get_tensor_SomeD [OF A(5)] and gb = get_tensor_SomeD [OF B(5)]
    and s = get_tensor_SomeD [OF S(1)]
    and la = get_list_SomeD [OF A(3)] and lb = get_list_SomeD [OF B(3)]
  have nrg: "\<not> requires_grad GA" "\<not> requires_grad GB"
    using wf a b ga gb A(4) B(4) unfolding well_formed_iff by blast+
  have ne: "ga \<noteq> a" "ga \<noteq> b" "gb \<noteq> a" "gb \<noteq> b"
    using nrg A(2) B(2) a b ga gb by auto
  have sne: "s \<noteq> ga" "s \<noteq> gb"
    using S(2) a b A(4) B(4) unfolding is_accumulator_iff by auto
  define sum where "sum = \<lparr>dims = dims (data A), elems = map2 (+) (elems (data A)) (elems (data B))\<rparr>"
  define da where "da = \<lparr>tensor = a, grad_fn = add_grad_fn (dims (data A))\<rparr>"
  define db where "db = \<lparr>tensor = b, grad_fn = add_grad_fn (dims (data B))\<rparr>"
  define C where "C = \<lparr>data = sum, requires_grad = True, depends_on = L, shape = dims sum,
                        grad = Some (Suc N)\<rparr>"
  define Z where "Z = \<lparr>data = zeros_like sum, requires_grad = False,
                        depends_on = default_depends_on, shape = dims sum, grad = None\<rparr>"
  define h1 where "h1 = \<lparr>tensors = tensors h @ [C, Z], lists = lists h @ [[da, db]]\<rparr>"
  have step1: "tensor_add h a (ATensor b) = Return N h1"
    using A(1,2) B(1,2)
    by (simp add: tensor_add_def ensure_tensor_def operations_add_def np_binop_same_dims [OF dims]
        Tensor_init_def Tensor_fields_def zero_grad_def get_tensor_def put_tensor_def nth_append
        h1_def C_def Z_def sum_def da_def db_def N_def L_def zeros_like_def)
  define tmp where "tmp = \<lparr>data = data S, requires_grad = False,
                        depends_on = default_depends_on, shape = dims (data S), grad = None\<rparr>"
  define h2 where "h2 = put_tensor h1 (Suc N) (Z\<lparr>data := data S, grad := None\<rparr>)"
  define h3 where "h3 = h2\<lparr>tensors := tensors h2 @ [tmp]\<rparr>"
  define h4 where "h4 = put_tensor h3 ga (GA\<lparr>data := data S, grad := None\<rparr>)"
  define h5 where "h5 = h4\<lparr>tensors := tensors h4 @ [tmp]\<rparr>"
  define h6 where "h6 = put_tensor h5 gb (GB\<lparr>data := data S, grad := None\<rparr>)"
  have old1: "get_tensor h1 r = get_tensor h r" if "r < N" for r
    using that by (simp add: get_tensor_def h1_def N_def nth_append)
  have g1: "get_tensor h1 N = Some C" "get_tensor h1 (Suc N) = Some Z"
    by (simp_all add: get_tensor_def h1_def N_def nth_append)
  have lens: "length (tensors h1) = N + 2" "length (tensors h2) = N + 2"
    "length (tensors h3) = N + 3" "length (tensors h4) = N + 3"
    "length (tensors h5) = N + 4" "length (tensors h6) = N + 4"
    by (simp_all add: h1_def h2_def h3_def h4_def h5_def h6_def N_def put_tensor_def)
  have lt: "a < N" "b < N" "ga < N" "gb < N" "s < N"
    using a b ga gb s by (simp_all add: N_def)
  have dZ: "data Z = zeros_like sum" by (simp add: Z_def)
  have iz: "np_iadd (data Z) (data S) = Inr (data S)"
    unfolding dZ by (rule np_iadd_zeros [OF S(3)]) (simp_all add: S sum_def)
  have acc1: "accumulate h1 N s = Return () h2"
    using g1 old1 [OF lt(5)] S(1) iz
    by (simp add: accumulate_def C_def data_setter_def h2_def)
  have ls: "lists h2 = lists h @ [[da, db]]" "lists h3 = lists h2" "lists h4 = lists h2"
    "lists h5 = lists h2" "lists h6 = lists h2"
    by (simp_all add: h1_def h2_def h3_def h4_def h5_def h6_def put_tensor_def)
  have gl: "get_list h2 L = Some [da, db]"
    by (simp add: get_list_def ls L_def)
  have old2: "get_tensor h2 r = get_tensor h r" if "r < N" for r
    using that old1 [OF that] by (simp add: h2_def get_tensor_put)
  have step2: "backward (Suc n) h1 N (Some s) = for_each (propagate (backward n) s) [da, db] h2"
    using g1 acc1 gl
    by (simp add: backward_body_def accumulate_and_propagate_def C_def h2_def get_tensor_put lens)
  have gf: "grad_fn da (data S) = Inr (data S)" "grad_fn db (data S) = Inr (data S)"
    using S(3) dims by (simp_all add: da_def db_def add_grad_fn_def sum_to_shape_def)
  have alloc3: "Tensor_init h2 (NDArray (data S)) False None = Return (N + 2) h3"
    by (simp add: Tensor_init_no_grad Tensor_fields_def h3_def tmp_def lens)
  have old3: "get_tensor h3 r = get_tensor h r" if "r < N" for r
    using that old2 [OF that] by (simp add: h3_def get_tensor_def nth_append lens)
  have t3: "get_tensor h3 (N + 2) = Some tmp"
    by (simp add: h3_def get_tensor_def nth_append lens)
  have old_list: "get_list h3 l = get_list h l" "get_list h5 l = get_list h l" if "l < L" for l
    using that by (simp_all add: get_list_def ls L_def nth_append)
  have dt: "data tmp = data S" by (simp add: tmp_def)
  have ia: "np_iadd (data GA) (data tmp) = Inr (data S)"
    unfolding A(6) dt by (rule np_iadd_zeros [OF S(3)]) (simp_all add: S)
  have ib: "np_iadd (data GB) (data tmp) = Inr (data S)"
    unfolding B(6) dt by (rule np_iadd_zeros [OF S(3)]) (simp_all add: S dims)
  have leafa: "get_list h3 (depends_on A) = Some []"
    using old_list(1) [of "depends_on A"] la A(3) by (simp add: L_def)
  have visit_a: "backward n h3 a (Some (N + 2)) = Return () h4"
    unfolding h4_def
    by (rule backward_leaf [where T = A and S = tmp])
       (use old3 lt A t3 ia leafa ne in simp_all)
  have prop_a: "propagate (backward n) s da h2 = Return () h4"
    using old2 [OF lt(5)] S(1) gf(1) alloc3 visit_a
    by (simp add: propagate_def da_def)
  have old4: "get_tensor h4 r = get_tensor h r" if "r < N" "r \<noteq> ga" for r
    using that old3 [OF that(1)] by (simp add: h4_def get_tensor_put)
  have ga4: "get_tensor h4 ga = Some (GA\<lparr>data := data S, grad := None\<rparr>)"
    using lt by (simp add: h4_def get_tensor_put lens)
  have alloc5: "Tensor_init h4 (NDArray (data S)) False None = Return (N + 3) h5"
    by (simp add: Tensor_init_no_grad Tensor_fields_def h5_def tmp_def lens)
  have old5: "get_tensor h5 r = get_tensor h4 r" if "r < N" for r
    using that by (simp add: h5_def get_tensor_def nth_append lens)
  have t5: "get_tensor h5 (N + 3) = Some tmp"
    by (simp add: h5_def get_tensor_def nth_append lens)
  have leafb: "get_list h5 (depends_on B) = Some []"
    using old_list(2) [of "depends_on B"] lb B(3) by (simp add: L_def)
  have visit_b: "backward n h5 b (Some (N + 3)) = Return () h6"
    unfolding h6_def
    by (rule backward_leaf [where T = B and S = tmp])
       (use old5 old4 lt B t5 ib leafb ne gab in simp_all)
  have prop_b: "propagate (backward n) s db h4 = Return () h6"
    using old4 [OF lt(5) sne(1)] S(1) gf(2) alloc5 visit_b
    by (simp add: propagate_def db_def)
  have run: "backward (Suc n) h1 N (Some s) = Return () h6"
    using step2 prop_a prop_b by simp
  have "get_tensor h6 ga = Some (GA\<lparr>data := data S, grad := None\<rparr>)"
    using old5 [OF lt(3)] ga4 gab lt by (simp add: h6_def get_tensor_put)
  moreover have "get_tensor h6 gb = Some (GB\<lparr>data := data S, grad := None\<rparr>)"
    using lt by (simp add: h6_def get_tensor_put lens)
  moreover have "get_tensor h6 a = Some A" "get_tensor h6 b = Some B"
    using old5 old4 lt ne A(1) B(1) by (simp_all add: h6_def get_tensor_put)
  ultimately show ?thesis using step1 run by simp
qed

lemma backward_unfold:
  assumes "get_tensor h self = Some T" "requires_grad T" "accumulate h self g = Return () h2"
    "get_list h2 (depends_on T) = Some deps"
  shows "backward (Suc n) h self (Some g) = for_each (propagate (backward n) g) deps h2"
proof -
  obtain T2 where "get_tensor h2 self = Some T2" "depends_on T2 = depends_on T"
    using accumulate_node [OF assms(3,1)] by blast
  then show ?thesis
    using assms by (simp add: backward_body_def accumulate_and_propagate_def)
qed

lemma propagate_unfold:
  assumes "get_tensor h g = Some G" "grad_fn dep (data G) = Inr local"
  shows "\<exists>t h1 L. Tensor_init h (NDArray local) False None = Return t h1 \<and>
           get_tensor h1 t = Some L \<and> data L = local \<and>
           propagate call g dep h = call h1 (tensor dep) (Some t)"
  using assms
  by (simp add: propagate_def Tensor_init_no_grad Tensor_fields_def get_tensor_def)

lemma add_scenario_backward:
  assumes "add_scenario h a b s"
  shows "\<exists>c h1 h2. tensor_add h a (ATensor b) = Return c h1 \<and>
           backward (Suc n) h1 c (Some s) = Return () h2 \<and>
           grad_data h2 a = map_option data (get_tensor h s) \<and>
           grad_data h2 b = map_option data (get_tensor h s) \<and>
           grad_data h2 a \<noteq> None"
proof -
  from assms obtain A B S where g: "get_tensor h a = Some A" "get_tensor h b = Some B"
      "get_tensor h s = Some S"
    by (auto simp add: add_scenario_def split: option.splits)
  with assms have wf: "well_formed h" and ab: "a \<noteq> b" and na: "\<not> is_accumulator h s"
    and r: "grad A \<noteq> grad B" "dims (data A) = dims (data B)" "dims (data S) = dims (data A)"
      "length (elems (data S)) = prod_list (dims (data S))"
    and fa: "fresh_leaf h a" and fb: "fresh_leaf h b"
    by (simp_all add: add_scenario_def)
  from fa g(1) obtain ga GA where A: "requires_grad A" "get_list h (depends_on A) = Some []"
      "grad A = Some ga" "get_tensor h ga = Some GA" "data GA = zeros_like (data A)"
    by (auto simp add: fresh_leaf_def split: option.splits)
  from fb g(2) obtain gb GB where B: "requires_grad B" "get_list h (depends_on B) = Some []"
      "grad B = Some gb" "get_tensor h gb = Some GB" "data GB = zeros_like (data B)"
    by (auto simp add: fresh_leaf_def split: option.splits)
  have gab: "ga \<noteq> gb" using r(1) A(3) B(3) by simp
  from add_then_backward [OF wf ab g(1) A g(2) B gab r(2) g(3) na r(3,4), of n]
  obtain c h1 h2 GA' GB' where *: "tensor_add h a (ATensor b) = Return c h1"
      "backward (Suc n) h1 c (Some s) = Return () h2"
      "get_tensor h2 a = Some A" "get_tensor h2 b = Some B"
      "get_tensor h2 ga = Some GA'" "data GA' = data S"
      "get_tensor h2 gb = Some GB'" "data GB' = data S"
    by blast
  then have "grad_data h2 a = Some (data S)" "grad_data h2 b = Some (data S)"
    using A(3) B(3) by (simp_all add: grad_data_def)
  then show ?thesis using *(1,2) g(3) by simp
qed

text \<open>
  Claim C4, amended. A visited node that requires a gradient, once its own accumulation
  has returned, runs through its dependencies in order; for each it applies the
  dependency's \<open>grad_fn\<close> to the data of its seed, wraps the result in a new tensor, and
  calls \<open>backward\<close> on the dependency's tensor with that tensor as the seed, one level
  deeper. And for two different fresh leaves \<open>a\<close> and \<open>b\<close> of one shape, with gradients
  of their own, and a seed of that shape: \<open>c = a + b; c.backward(seed)\<close> returns and
  leaves \<open>a.grad.data\<close> and \<open>b.grad.data\<close> equal to the data of the seed.
\<close>

theorem backward_propagates:
  "(get_tensor h self = Some T \<and> requires_grad T \<and> accumulate h self g = Return () h2 \<and>
      get_list h2 (depends_on T) = Some deps \<longrightarrow>
      backward (Suc n) h self (Some g) = for_each (propagate (backward n) g) deps h2) \<and>
   (get_tensor h' g = Some G \<and> grad_fn dep (data G) = Inr local \<longrightarrow>
      (\<exists>t h1 L. Tensor_init h' (NDArray local) False None = Return t h1 \<and>
         get_tensor h1 t = Some L \<and> data L = local \<and>
         propagate (backward n) g dep h' = backward n h1 (tensor dep) (Some t))) \<and>
   (add_scenario h a b s \<longrightarrow>
      (\<exists>c h1 h2. tensor_add h a (ATensor b) = Return c h1 \<and>
         backward (Suc n) h1 c (Some s) = Return () h2 \<and>
         grad_data h2 a = map_option data (get_tensor h s) \<and>
         grad_data h2 b = map_option data (get_tensor h s) \<and>
         grad_data h2 a \<noteq> None))"
  using backward_unfold [of h self T g h2 deps n]
    propagate_unfold [of h' g G dep local "backward n"]
    add_scenario_backward [of h a b s n]
  by blast

lemmas ex_pair_defs = ex_pair_def ex_a_def ex_s_def ex_zero_def ex_k_def scalar_def

lemma ex_pair_scenario: "add_scenario ex_pair 0 2 4"
  by (simp add: add_scenario_def well_formed_def fresh_leaf_def is_accumulator_def get_tensor_def
      get_list_def zeros_like_def ex_pair_defs)

text \<open>
  With both operands the same tensor, \<open>c = s + s; c.backward(k)\<close> for the seed \<open>k = 5\<close>
  reaches \<open>s\<close> once per operand and leaves \<open>s.grad.data = 10\<close>, not the seed.
\<close>

theorem same_operand_counterexample:
  "requires_grad ex_s \<and>
   grad_data ex_heap 2 = Some (scalar 0) \<and>
   map_option data (get_tensor ex_heap 4) = Some (scalar 5) \<and>
   grad_data (heap_of (backward 2 (heap_of (tensor_add ex_heap 2 (ATensor 2))) 5 (Some 4))) 2
     = Some (scalar 10)"
  by (simp add: numeral_2_eq_2 tensor_add_def ensure_tensor_def operations_add_def
      np_binop_def broadcast_shapes_def add_grad_fn_def sum_to_shape_def
      Tensor_init_def zero_grad_def zeros_like_def grad_data_def
      backward_body_def accumulate_and_propagate_def accumulate_def propagate_def
      Tensor_fields_def data_setter_def put_tensor_def get_tensor_def
      get_list_def np_iadd_def broadcast_to_def default_depends_on_def
      ex_heap_def ex_x_def ex_x_grad_def ex_s_def ex_s_grad_def ex_k_def scalar_def)

theorem backward_propagates_witness:
  "get_tensor ex_graph 2 = Some ex_c \<and> requires_grad ex_c \<and>
   accumulate ex_graph 2 0 = Return () ex_graph_seeded \<and>
   get_list ex_graph_seeded (depends_on ex_c) = Some [ex_dep, ex_dep] \<and>
   backward (Suc 1) ex_graph 2 (Some 0)
     = for_each (propagate (backward 1) 0) [ex_dep, ex_dep] ex_graph_seeded \<and>
   get_tensor ex_graph 0 = Some ex_a \<and> grad_fn ex_dep (data ex_a) = Inr (scalar 2) \<and>
   (\<exists>t h1 L. Tensor_init ex_graph (NDArray (scalar 2)) False None = Return t h1 \<and>
      get_tensor h1 t = Some L \<and> data L = scalar 2 \<and>
      propagate (backward 1) 0 ex_dep ex_graph = backward 1 h1 (tensor ex_dep) (Some t)) \<and>
   add_scenario ex_pair 0 2 4 \<and>
   (\<exists>c h1 h2. tensor_add ex_pair 0 (ATensor 2) = Return c h1 \<and>
      backward (Suc 0) h1 c (Some 4) = Return () h2 \<and>
      grad_data h2 0 = Some (scalar 5) \<and> grad_data h2 2 = Some (scalar 5))"
proof -
  have c: "get_tensor ex_graph 2 = Some ex_c" "requires_grad ex_c"
    by (simp_all add: get_tensor_def ex_graph_def ex_c_def)
  have acc: "accumulate ex_graph 2 0 = Return () ex_graph_seeded"
    by (simp add: accumulate_def data_setter_def get_tensor_def np_iadd_def broadcast_to_def
        put_tensor_def ex_graph_seeded_def ex_graph_defs)
  have l: "get_list ex_graph_seeded (depends_on ex_c) = Some [ex_dep, ex_dep]"
    by (simp add: get_list_def ex_graph_seeded_def put_tensor_def ex_graph_def ex_c_def ex_dep_def)
  have a: "get_tensor ex_graph 0 = Some ex_a" "grad_fn ex_dep (data ex_a) = Inr (scalar 2)"
    by (simp_all add: get_tensor_def ex_graph_def ex_a_def ex_dep_def)
  have k: "map_option data (get_tensor ex_pair 4) = Some (scalar 5)"
    by (simp add: get_tensor_def ex_pair_def ex_k_def)
  note t = backward_propagates [where h = ex_graph and self = 2 and T = ex_c and g = 0
      and ?h2.0 = ex_graph_seeded and deps = "[ex_dep, ex_dep]" and n = 1 and h' = ex_graph
      and G = ex_a and dep = ex_dep and local = "scalar 2"]
  have 1: "backward (Suc 1) ex_graph 2 (Some 0)
     = for_each (propagate (backward 1) 0) [ex_dep, ex_dep] ex_graph_seeded"
    using t c acc l by blast
  have 2: "\<exists>t h1 L. Tensor_init ex_graph (NDArray (scalar 2)) False None = Return t h1 \<and>
      get_tensor h1 t = Some L \<and> data L = scalar 2 \<and>
      propagate (backward 1) 0 ex_dep ex_graph = backward 1 h1 (tensor ex_dep) (Some t)"
    using t a by blast
  note t0 = backward_propagates [where h = ex_pair and a = 0 and b = 2 and s = 4 and n = 0]
  have 3: "\<exists>c h1 h2. tensor_add ex_pair 0 (ATensor 2) = Return c h1 \<and>
      backward (Suc 0) h1 c (Some 4) = Return () h2 \<and>
      grad_data h2 0 = Some (scalar 5) \<and> grad_data h2 2 = Some (scalar 5)"
  proof -
    from t0 ex_pair_scenario obtain c h1 h2 where
        *: "tensor_add ex_pair 0 (ATensor 2) = Return c h1"
           "backward (Suc 0) h1 c (Some 4) = Return () h2"
           "grad_data h2 0 = map_option data (get_tensor ex_pair 4)"
           "grad_data h2 2 = map_option data (get_tensor ex_pair 4)"
      by blast
    show ?thesis using * unfolding k by blast
  qed
  show ?thesis using c acc l a 1 2 3 ex_pair_scenario by blast
qed

section \<open>Well-formed heaps are the heaps the module builds\<close>

text \<open>
  The empty module is well formed, and the constructor, \<open>zero_grad\<close>, the setter of
  \<open>data\<close>, the compound updates, addition and \<open>backward\<close> keep a heap well formed.
\<close>

lemma module_heap_well_formed: "well_formed module_heap"
  by (simp add: well_formed_def module_heap_def)

lemma Tensor_fields_well_formed:
  assumes "well_formed h"
  shows "well_formed (heap_of (Tensor_fields h d rg deps))"
  using assms unfolding well_formed_iff
  by (auto simp add: Tensor_fields_def nth_append less_Suc_eq split: sum.splits)

lemma zero_grad_well_formed:
  assumes "well_formed h"
  shows "well_formed (heap_of (zero_grad h t))"
proof (cases "get_tensor h t")
  case None
  then show ?thesis using assms by (simp add: zero_grad_def)
next
  case (Some T)
  then have t: "t < length (tensors h)" "tensors h ! t = T"
    by (auto simp add: get_tensor_def split: if_splits)
  show ?thesis
    using assms t unfolding well_formed_iff
    by (auto simp add: zero_grad_def Some Tensor_fields_def put_tensor_def nth_append
        nth_list_update less_Suc_eq)
qed

lemma Tensor_init_well_formed:
  assumes "well_formed h"
  shows "well_formed (heap_of (Tensor_init h d rg deps))"
proof (cases "Tensor_fields h d rg deps")
  case (Return t h1)
  have 1: "well_formed h1" using Tensor_fields_well_formed [OF assms, of d rg deps] Return by simp
  then have "well_formed (heap_of (zero_grad h1 t))" by (rule zero_grad_well_formed)
  then show ?thesis using Return 1 by (cases "zero_grad h1 t") (auto simp add: Tensor_init_def)
next
  case (Raise e h1)
  then show ?thesis using Tensor_fields_well_formed [OF assms, of d rg deps]
    by (simp add: Tensor_init_def)
qed

lemma data_setter_well_formed:
  assumes "well_formed h"
  shows "well_formed (heap_of (data_setter h t a))"
proof (cases "get_tensor h t")
  case None
  then show ?thesis using assms by (simp add: data_setter_def)
next
  case (Some T)
  then have t: "t < length (tensors h)" "tensors h ! t = T"
    by (auto simp add: get_tensor_def split: if_splits)
  show ?thesis
    using assms t unfolding well_formed_iff
    by (auto simp add: data_setter_def Some put_tensor_def nth_list_update)
qed

lemma inplace_op_well_formed:
  assumes "well_formed h"
  shows "well_formed (heap_of (inplace_op f h t other))"
proof -
  obtain h1 where h1: "h1 = heap_of (ensure_tensor h other)" by simp
  have ok1: "well_formed h1"
    using Tensor_init_well_formed [OF assms] assms h1
    by (cases other) (simp_all add: ensure_tensor_def)
  have "well_formed (heap_of (data_setter h1 t a))" for a
    using ok1 by (rule data_setter_well_formed)
  then have set: "well_formed (heap_of (case data_setter h1 t a of
                            Raise e h2 \<Rightarrow> Raise e h2
                          | Return _ h2 \<Rightarrow> Return t h2))" for a
    by (cases "data_setter h1 t a") (auto dest: meta_spec [of _ a])
  show ?thesis
    using assms ok1 h1 set
    by (cases "ensure_tensor h other")
       (auto simp add: inplace_op_def split: option.splits sum.splits)
qed

lemma backward_well_formed:
  assumes wf: "well_formed h" and t: "t < length (tensors h)"
  shows "well_formed (heap_of (backward n h t s))"
proof -
  let ?h' = "heap_of (backward n h t s)"
  have f: "frame h h ?h'" using backward_frame [OF wf frame_refl t] .
  have g: "grows h ?h'" by (rule backward_grows)
  have len: "length (tensors h) \<le> length (tensors ?h')" using f by (simp add: frame_def)
  have l: "lists ?h' = lists h" using f by (simp add: frame_def)
  have 1: "g < length (tensors ?h') \<and> \<not> requires_grad (tensors ?h' ! g)"
    if r: "r < length (tensors ?h')" and gr: "grad (tensors ?h' ! r) = Some g" for r g
  proof -
    have old: "r < length (tensors h)"
      using g r gr unfolding grows_def by (metis not_le_imp_less option.distinct(1))
    then have "grad (tensors h ! r) = Some g"
      using g gr unfolding grows_def by (metis option.distinct(1))
    then have acc: "is_accumulator h g" using old unfolding is_accumulator_iff by blast
    then have "g < length (tensors h)" "\<not> requires_grad (tensors ?h' ! g)"
      using inv_accumulator [OF wf f acc] by simp_all
    then show ?thesis using len by simp
  qed
  have 2: "tensor d < length (tensors ?h')" if "ds \<in> set (lists ?h')" "d \<in> set ds" for ds d
    using that wf l len unfolding well_formed_iff by fastforce
  show ?thesis unfolding well_formed_iff using 1 2 by blast
qed

lemma tensor_add_well_formed:
  assumes "well_formed h"
  shows "well_formed (heap_of (tensor_add h t other))"
proof -
  obtain h1 where h1: "h1 = heap_of (ensure_tensor h other)" by simp
  have ok1: "well_formed h1"
    using Tensor_init_well_formed [OF assms] assms h1
    by (cases other) (simp_all add: ensure_tensor_def)
  have "well_formed (heap_of (operations_add h1 t1 t2))" for t1 t2
  proof (cases "get_tensor h1 t1")
    case None
    then show ?thesis using ok1 by (simp add: operations_add_def)
  next
    case T1: (Some T1)
    show ?thesis
    proof (cases "get_tensor h1 t2")
      case None
      then show ?thesis using ok1 T1 by (simp add: operations_add_def)
    next
      case T2: (Some T2)
      have lt: "t1 < length (tensors h1)" "t2 < length (tensors h1)"
        using T1 T2 by (auto simp add: get_tensor_def split: if_splits)
      have "well_formed (h1\<lparr>lists := lists h1 @ [ds]\<rparr>)"
        if "\<forall>d \<in> set ds. tensor d < length (tensors h1)" for ds
        using ok1 that unfolding well_formed_iff by auto
      then have "well_formed (heap_of (Tensor_init (h1\<lparr>lists := lists h1 @ [ds]\<rparr>) d rg l))"
        if "\<forall>d \<in> set ds. tensor d < length (tensors h1)" for ds d rg l
        using that Tensor_init_well_formed by blast
      then show ?thesis
        using ok1 T1 T2 lt
        by (auto simp add: operations_add_def Let_def split: sum.splits)
    qed
  qed
  then show ?thesis
    using ok1 h1 by (cases "ensure_tensor h other") (auto simp add: tensor_add_def)
qed

end
